theory Spec2Isabelle
  imports Complex_Main
begin

section \<open>The user-permissions editor (class UserAssetPermsEditor)\<close>

subsection \<open>Values, permission definitions and collaborators\<close>

text \<open>
  The component keeps its state in one JavaScript object. Four of its properties are only
  ever read and written under their own names (\<open>usernamesBeingChecked\<close>,
  \<open>isSubmitPending\<close>, \<open>isEditingUsername\<close>, \<open>username\<close>); they are fields of the
  record \<open>state\<close> below. All the others (the checkboxes, their \<open>...Disabled\<close> flags and
  the \<open>...Users\<close> lists) are reached through computed property names such as
  \<open>stateObj[`${pairCheckbox}Disabled`]\<close>; they live in the map \<open>entries\<close>, keyed by
  the property name, where a missing key is JavaScript's \<open>undefined\<close>. A write through a
  computed name is therefore a write into \<open>entries\<close>: the model follows the code for every
  name but the four above, which no caller of the component's methods ever passes.

  The values kept under computed names are booleans and arrays of user names. A read of a
  property of \<open>undefined\<close> throws; an exception is the value \<open>Inl TypeError\<close>, and
  nothing is said of the state an exception leaves behind.
\<close>

datatype jsval = JBool bool | JArr "string list"

type_synonym jsobj = "string \<rightharpoonup> jsval"

datatype error = TypeError

record state =
  usernamesBeingChecked :: "string list"
  isSubmitPending :: bool
  isEditingUsername :: bool
  username :: string
  entries :: jsobj

text \<open>A permission definition as \<open>permConfig\<close> hands it out, and an assigned permission.\<close>

record permDef =
  url :: string
  codename :: string
  implied :: "string list"
  contradictory :: "string list"

record perm =
  user :: string
  permission :: string

text \<open>What \<open>getFormData\<close> builds: the username and the assignable checkbox properties.\<close>

record formData =
  fd_username :: string
  fd_fields :: jsobj

text \<open>
  The component's collaborators are parameters of the model: the constants
  \<open>PERMISSIONS_CODENAMES\<close> (a \<open>Map\<close>, whose \<open>get\<close> answers \<open>undefined\<close>, here
  \<open>None\<close>, for a missing key) and \<open>ANON_USERNAME\<close> of \<open>js/constants\<close>; the two lookups
  of \<open>permConfig\<close>, which answer \<open>undefined\<close> for an unknown permission; the two
  functions of \<open>permParser\<close>; \<open>buildUserUrl\<close> and the translation function \<open>t\<close> of
  \<open>js/utils\<close>; the synchronous check of \<open>stores.userExists\<close>, which answers a boolean
  or \<open>undefined\<close>; and \<open>navigator.onLine\<close>. The object \<open>permParser.buildFormData\<close>
  returns holds checkbox properties only.
\<close>

record collaborators =
  PERMISSIONS_CODENAMES :: "string \<rightharpoonup> string"
  ANON_USERNAME :: string
  getPermissionByCodename :: "string option \<Rightarrow> permDef option"
  getPermission :: "string \<Rightarrow> permDef option"
  buildFormData :: "perm list \<Rightarrow> jsobj"
  parseFormData :: "formData \<Rightarrow> perm list"
  buildUserUrl :: "string \<Rightarrow> string"
  t_fn :: "string \<Rightarrow> string"
  checkUsername :: "string \<Rightarrow> bool option"
  onLine :: bool

type_synonym callback = string

record props =
  uid :: string
  props_username :: "string option"
  permissions :: "perm list option"
  assignablePerms :: "string \<rightharpoonup> string"
  nonOwnerPerms :: "perm list"
  onSubmitEnd :: "callback option"

text \<open>What a handler does to the world outside the component, in the order it does it.\<close>

datatype effect =
    PreventDefault
  | BulkSetAssetPermissions string "perm list"
  | Invoke callback bool
  | Notify string string
  | CheckUsernameAction string

subsection \<open>JavaScript primitives\<close>

definition truthy :: "jsval option \<Rightarrow> bool" where
  "truthy v = (case v of None \<Rightarrow> False | Some (JBool b) \<Rightarrow> b | Some (JArr xs) \<Rightarrow> True)"

definition endsWith :: "string \<Rightarrow> string \<Rightarrow> bool" where
  "endsWith s searchString =
     (length searchString \<le> length s \<and> drop (length s - length searchString) s = searchString)"

text \<open>\<open>stateObj[k] = v\<close>, and \<open>Object.assign\<close> of an object of checkbox properties.\<close>

definition put :: "string \<Rightarrow> jsval \<Rightarrow> state \<Rightarrow> state" where
  "put k v stateObj = stateObj\<lparr>entries := (entries stateObj)(k \<mapsto> v)\<rparr>"

definition assign :: "state \<Rightarrow> jsobj \<Rightarrow> state" where
  "assign stateObj source = stateObj\<lparr>entries := entries stateObj ++ source\<rparr>"

text \<open>\<open>forEach\<close> with a callback that may throw: the first exception ends the loop.\<close>

fun forEachE :: "('a \<Rightarrow> 's \<Rightarrow> error + 's) \<Rightarrow> 'a list \<Rightarrow> 's \<Rightarrow> error + 's" where
  "forEachE f [] s = Inr s"
| "forEachE f (x # xs) s = (case f x s of Inl err \<Rightarrow> Inl err | Inr s' \<Rightarrow> forEachE f xs s')"

text \<open>\<open>a && b\<close> on boolean operands that may throw: \<open>b\<close> is not evaluated when \<open>a\<close> is false.\<close>

definition and_also :: "error + bool \<Rightarrow> error + bool \<Rightarrow> error + bool" where
  "and_also a b = (case a of Inl err \<Rightarrow> Inl err | Inr x \<Rightarrow> if x then b else Inr False)"

subsection \<open>The checkbox-to-permission map and the validity rules\<close>

definition CHECKBOX_PERM_PAIRS :: "collaborators \<Rightarrow> (string \<times> string option) list" where
  "CHECKBOX_PERM_PAIRS e =
    [(''formView'', PERMISSIONS_CODENAMES e ''view_asset''),
     (''formEdit'', PERMISSIONS_CODENAMES e ''change_asset''),
     (''submissionsAdd'', PERMISSIONS_CODENAMES e ''add_submissions''),
     (''submissionsAddPartial'', PERMISSIONS_CODENAMES e ''partial_submissions''),
     (''submissionsView'', PERMISSIONS_CODENAMES e ''view_submissions''),
     (''submissionsViewPartial'', PERMISSIONS_CODENAMES e ''partial_submissions''),
     (''submissionsEdit'', PERMISSIONS_CODENAMES e ''change_submissions''),
     (''submissionsEditPartial'', PERMISSIONS_CODENAMES e ''partial_submissions''),
     (''submissionsValidate'', PERMISSIONS_CODENAMES e ''validate_submissions''),
     (''submissionsValidatePartial'', PERMISSIONS_CODENAMES e ''partial_submissions'')]"

definition initialState :: state where
  "initialState =
    \<lparr>usernamesBeingChecked = [],
     isSubmitPending = False,
     isEditingUsername = False,
     username = [],
     entries =
       [''formView'' \<mapsto> JBool False,
        ''formViewDisabled'' \<mapsto> JBool False,
        ''formEdit'' \<mapsto> JBool False,
        ''submissionsView'' \<mapsto> JBool False,
        ''submissionsViewDisabled'' \<mapsto> JBool False,
        ''submissionsViewPartial'' \<mapsto> JBool False,
        ''submissionsViewPartialDisabled'' \<mapsto> JBool False,
        ''submissionsViewPartialUsers'' \<mapsto> JArr [],
        ''submissionsAdd'' \<mapsto> JBool False,
        ''submissionsAddDisabled'' \<mapsto> JBool False,
        ''submissionsAddPartial'' \<mapsto> JBool False,
        ''submissionsAddPartialDisabled'' \<mapsto> JBool False,
        ''submissionsAddPartialUsers'' \<mapsto> JArr [],
        ''submissionsEdit'' \<mapsto> JBool False,
        ''submissionsEditDisabled'' \<mapsto> JBool False,
        ''submissionsEditPartial'' \<mapsto> JBool False,
        ''submissionsEditPartialDisabled'' \<mapsto> JBool False,
        ''submissionsEditPartialUsers'' \<mapsto> JArr [],
        ''submissionsValidate'' \<mapsto> JBool False,
        ''submissionsValidateDisabled'' \<mapsto> JBool False,
        ''submissionsValidatePartial'' \<mapsto> JBool False,
        ''submissionsValidatePartialDisabled'' \<mapsto> JBool False,
        ''submissionsValidatePartialUsers'' \<mapsto> JArr []]\<rparr>"

definition getCheckboxPermissionPair :: "collaborators \<Rightarrow> string \<Rightarrow> string option" where
  "getCheckboxPermissionPair e checkboxName =
     (case map_of (CHECKBOX_PERM_PAIRS e) checkboxName of
        None \<Rightarrow> None
      | Some pairPermission \<Rightarrow> pairPermission)"

definition getPermissionCheckboxPairs :: "collaborators \<Rightarrow> string \<Rightarrow> string list" where
  "getPermissionCheckboxPairs e permCodename =
     map fst (filter (\<lambda>(pairCheckbox, pairPermission). pairPermission = Some permCodename)
                (CHECKBOX_PERM_PAIRS e))"

definition getImpliedPermissions :: "collaborators \<Rightarrow> string option \<Rightarrow> string list" where
  "getImpliedPermissions e permCodename =
     (case getPermissionByCodename e (Option.bind permCodename (PERMISSIONS_CODENAMES e)) of
        Some permDef \<Rightarrow> implied permDef
      | None \<Rightarrow> [])"

definition getContradictoryPermissions :: "collaborators \<Rightarrow> string option \<Rightarrow> string list" where
  "getContradictoryPermissions e permCodename =
     (case getPermissionByCodename e (Option.bind permCodename (PERMISSIONS_CODENAMES e)) of
        Some permDef \<Rightarrow> contradictory permDef
      | None \<Rightarrow> [])"

text \<open>
  The two inner callbacks of \<open>applyValidityRulesForCheckbox\<close>: the checkbox is set to the
  given value and its \<open>Disabled\<close> flag to true. \<open>permConfig.getPermission\<close> answering
  \<open>undefined\<close> makes the read of \<open>.codename\<close> throw.
\<close>

definition setAndDisable :: "bool \<Rightarrow> string \<Rightarrow> state \<Rightarrow> state" where
  "setAndDisable v checkbox stateObj =
     put (checkbox @ ''Disabled'') (JBool True) (put checkbox (JBool v) stateObj)"

definition forPermUrl :: "collaborators \<Rightarrow> bool \<Rightarrow> string \<Rightarrow> state \<Rightarrow> error + state" where
  "forPermUrl e v permUrl stateObj =
     (case getPermission e permUrl of
        None \<Rightarrow> Inl TypeError
      | Some permDef \<Rightarrow>
          Inr (fold (setAndDisable v) (getPermissionCheckboxPairs e (codename permDef)) stateObj))"

definition applyValidityRulesForCheckbox ::
    "collaborators \<Rightarrow> string \<Rightarrow> state \<Rightarrow> error + state" where
  "applyValidityRulesForCheckbox e checkboxName stateObj =
     (if entries stateObj checkboxName = Some (JBool False) then Inr stateObj
      else
        let permissionPair = getCheckboxPermissionPair e checkboxName;
            impliedPerms = getImpliedPermissions e permissionPair;
            contradictoryPerms = getContradictoryPermissions e permissionPair
        in case forEachE (forPermUrl e True) impliedPerms stateObj of
             Inl err \<Rightarrow> Inl err
           | Inr stateObj' \<Rightarrow> forEachE (forPermUrl e False) contradictoryPerms stateObj')"

definition enableAll :: "collaborators \<Rightarrow> state \<Rightarrow> state" where
  "enableAll e stateObj =
     fold (\<lambda>(pairCheckbox, pairPermission). put (pairCheckbox @ ''Disabled'') (JBool False))
       (CHECKBOX_PERM_PAIRS e) stateObj"

definition cleanupStep :: "string \<times> string option \<Rightarrow> state \<Rightarrow> state" where
  "cleanupStep = (\<lambda>(pairCheckbox, pairPermission) stateObj.
     if endsWith pairCheckbox ''Partial'' \<and> entries stateObj pairCheckbox = Some (JBool False)
     then put (pairCheckbox @ ''Users'') (JArr []) stateObj
     else stateObj)"

definition cleanupPartialUsers :: "collaborators \<Rightarrow> state \<Rightarrow> state" where
  "cleanupPartialUsers e stateObj = fold cleanupStep (CHECKBOX_PERM_PAIRS e) stateObj"

definition applyValidityRules :: "collaborators \<Rightarrow> state \<Rightarrow> error + state" where
  "applyValidityRules e stateObj =
     (case forEachE (\<lambda>(pairCheckbox, pairPermission). applyValidityRulesForCheckbox e pairCheckbox)
             (CHECKBOX_PERM_PAIRS e) (enableAll e stateObj) of
        Inl err \<Rightarrow> Inl err
      | Inr stateObj' \<Rightarrow> Inr (cleanupPartialUsers e stateObj'))"

subsection \<open>The component: constructor and handlers\<close>



definition mergeState :: "state \<Rightarrow> state \<Rightarrow> state" where
  "mergeState st nextState = nextState\<lparr>entries := entries st ++ entries nextState\<rparr>"

definition applyPropsData :: "collaborators \<Rightarrow> props \<Rightarrow> state \<Rightarrow> error + state" where
  "applyPropsData e pr st =
     (case (case permissions pr of
              Some perms \<Rightarrow> applyValidityRules e (assign st (buildFormData e perms))
            | None \<Rightarrow> Inr st) of
        Inl err \<Rightarrow> Inl err
      | Inr st' \<Rightarrow>
          Inr (case props_username pr of
                 Some u \<Rightarrow> if u \<noteq> [] then st'\<lparr>username := u\<rparr> else st'
               | None \<Rightarrow> st'))"

definition constructor :: "collaborators \<Rightarrow> props \<Rightarrow> error + state" where
  "constructor e pr = applyPropsData e pr initialState"

definition notifyParentAboutSubmitEnd :: "props \<Rightarrow> state \<Rightarrow> bool \<Rightarrow> effect list" where
  "notifyParentAboutSubmitEnd pr st isSuccess =
     (if \<not> isSubmitPending st
      then (case onSubmitEnd pr of Some f \<Rightarrow> [Invoke f isSuccess] | None \<Rightarrow> [])
      else [])"



definition onCheckboxChange :: "collaborators \<Rightarrow> string \<Rightarrow> bool \<Rightarrow> state \<Rightarrow> error + state" where
  "onCheckboxChange e ident isChecked st =
     (let newState = put ident (JBool isChecked) st
      in case applyValidityRules e newState of
           Inl err \<Rightarrow> Inl err
         | Inr newState' \<Rightarrow> Inr (mergeState newState' newState'))"

definition onUsernameChange :: "string \<Rightarrow> state \<Rightarrow> state" where
  "onUsernameChange u st = st\<lparr>username := u, isEditingUsername := True\<rparr>"

definition checkUsernameSync :: "collaborators \<Rightarrow> string \<Rightarrow> bool option" where
  "checkUsernameSync e u = checkUsername e u"

text \<open>The \<open>Set\<close> of usernames is a list without repetitions, in insertion order.\<close>

definition checkUsernameAsync :: "string \<Rightarrow> state \<Rightarrow> state \<times> effect list" where
  "checkUsernameAsync u st =
     (st\<lparr>usernamesBeingChecked :=
           (if u \<in> set (usernamesBeingChecked st) then usernamesBeingChecked st
            else usernamesBeingChecked st @ [u])\<rparr>,
      [CheckUsernameAction u])"

definition notifyUnknownUser :: "collaborators \<Rightarrow> string \<Rightarrow> effect list" where
  "notifyUnknownUser e u =
     (if onLine e then [Notify (t_fn e ''User not found:'' @ '' '' @ u) ''warning''] else [])"

definition onUsernameChangeEnd :: "collaborators \<Rightarrow> state \<Rightarrow> state \<times> effect list" where
  "onUsernameChangeEnd e st0 =
     (let st = st0\<lparr>isEditingUsername := False\<rparr>
      in if username st = [] then (st, [])
         else case checkUsernameSync e (username st) of
                None \<Rightarrow> checkUsernameAsync (username st) st
              | Some userCheck \<Rightarrow>
                  if userCheck = False
                  then (st\<lparr>username := []\<rparr>, notifyUnknownUser e (username st))
                  else (st, []))"

definition isAssignable :: "collaborators \<Rightarrow> props \<Rightarrow> string \<Rightarrow> bool" where
  "isAssignable e pr permCodename =
     (case getPermissionByCodename e (PERMISSIONS_CODENAMES e permCodename) of
        None \<Rightarrow> False
      | Some permDef \<Rightarrow> assignablePerms pr (url permDef) \<noteq> None)"

text \<open>
  \<open>this.state[name + 'Users'].length\<close> throws when the list is \<open>undefined\<close>; a boolean has
  no \<open>length\<close>, and \<open>undefined !== 0\<close> is true.
\<close>

definition isPartialValid :: "state \<Rightarrow> string \<Rightarrow> error + bool" where
  "isPartialValid st partialCheckboxName =
     (if truthy (entries st partialCheckboxName)
      then (case entries st (partialCheckboxName @ ''Users'') of
              None \<Rightarrow> Inl TypeError
            | Some (JArr users) \<Rightarrow> Inr (length users \<noteq> 0)
            | Some (JBool b) \<Rightarrow> Inr True)
      else Inr True)"

definition isSubmitEnabled :: "collaborators \<Rightarrow> state \<Rightarrow> error + bool" where
  "isSubmitEnabled e st =
     (let isAnyCheckboxChecked =
            fold (\<lambda>(pairCheckbox, pairPermission) acc.
                    if entries st pairCheckbox = Some (JBool True) then True else acc)
              (CHECKBOX_PERM_PAIRS e) False
      in and_also (Inr isAnyCheckboxChecked)
        (and_also (isPartialValid st ''submissionsViewPartial'')
        (and_also (isPartialValid st ''submissionsAddPartial'')
        (and_also (isPartialValid st ''submissionsEditPartial'')
        (and_also (isPartialValid st ''submissionsValidatePartial'')
          (Inr (\<not> isSubmitPending st \<and>
                \<not> isEditingUsername st \<and>
                length (username st) > 0 \<and>
                length (usernamesBeingChecked st) = 0 \<and>
                username st \<noteq> ANON_USERNAME e)))))))"

text \<open>\<open>output.k = this.state.k\<close> when the permission is assignable.\<close>

definition copyWhen :: "bool \<Rightarrow> string list \<Rightarrow> state \<Rightarrow> jsobj \<Rightarrow> jsobj" where
  "copyWhen b ks st output = (if b then fold (\<lambda>k out. out(k := entries st k)) ks output else output)"

definition getFormData :: "collaborators \<Rightarrow> props \<Rightarrow> state \<Rightarrow> formData" where
  "getFormData e pr st =
     \<lparr>fd_username = username st,
      fd_fields =
        (copyWhen (isAssignable e pr ''validate_submissions'') [''submissionsValidate''] st
        (copyWhen (isAssignable e pr ''change_submissions'') [''submissionsEdit''] st
        (copyWhen (isAssignable e pr ''partial_submissions'')
           [''submissionsViewPartial'', ''submissionsViewPartialUsers''] st
        (copyWhen (isAssignable e pr ''view_submissions'') [''submissionsView''] st
        (copyWhen (isAssignable e pr ''add_submissions'') [''submissionsAdd''] st
        (copyWhen (isAssignable e pr ''change_asset'') [''formEdit''] st
        (copyWhen (isAssignable e pr ''view_asset'') [''formView''] st Map.empty)))))))\<rparr>"

definition submit :: "collaborators \<Rightarrow> props \<Rightarrow> state \<Rightarrow> error + state \<times> effect list" where
  "submit e pr st =
     (case isSubmitEnabled e st of
        Inl err \<Rightarrow> Inl err
      | Inr enabled \<Rightarrow>
          if \<not> enabled then Inr (st, [PreventDefault])
          else
            let formData = getFormData e pr st;
                parsedUser = parseFormData e formData
            in if length parsedUser > 0
               then
                 let otherUserPerms =
                       filter (\<lambda>perm. user perm \<noteq> buildUserUrl e (fd_username formData))
                         (nonOwnerPerms pr)
                 in Inr (st\<lparr>isSubmitPending := True\<rparr>,
                         [PreventDefault,
                          BulkSetAssetPermissions (uid pr) (otherUserPerms @ parsedUser)])
               else Inr (st, PreventDefault # notifyParentAboutSubmitEnd pr st True))"

text \<open>
  The \<open>Checkbox\<close> elements of \<open>render\<close>, in document order. Each is drawn when its
  permission is assignable, and its \<open>onChange\<close> is \<open>this.onCheckboxChange.bind(this, name)\<close>;
  the checkbox of \<open>formEdit\<close> is given no \<open>disabled\<close> property.
\<close>

datatype handler = OnCheckboxChange string

record checkboxElement =
  checked :: "jsval option"
  disabled :: "jsval option"
  onChange :: handler
  checkbox_label :: "string option"

definition getCheckboxLabel :: "collaborators \<Rightarrow> props \<Rightarrow> string \<Rightarrow> string option" where
  "getCheckboxLabel e pr checkboxName =
     (case getPermissionByCodename e (getCheckboxPermissionPair e checkboxName) of
        None \<Rightarrow> None
      | Some permDef \<Rightarrow> assignablePerms pr (url permDef))"

definition checkboxFor ::
    "collaborators \<Rightarrow> props \<Rightarrow> state \<Rightarrow> string \<Rightarrow> bool \<Rightarrow> string \<Rightarrow> checkboxElement list" where
  "checkboxFor e pr st permCodename hasDisabled name =
     (if isAssignable e pr permCodename
      then [\<lparr>checked = entries st name,
             disabled = (if hasDisabled then entries st (name @ ''Disabled'') else None),
             onChange = OnCheckboxChange name,
             checkbox_label = getCheckboxLabel e pr name\<rparr>]
      else [])"

definition renderCheckboxes :: "collaborators \<Rightarrow> props \<Rightarrow> state \<Rightarrow> checkboxElement list" where
  "renderCheckboxes e pr st =
     checkboxFor e pr st ''view_asset'' True ''formView'' @
     checkboxFor e pr st ''change_asset'' False ''formEdit'' @
     checkboxFor e pr st ''view_submissions'' True ''submissionsView'' @
     checkboxFor e pr st ''partial_submissions'' True ''submissionsViewPartial'' @
     checkboxFor e pr st ''add_submissions'' True ''submissionsAdd'' @
     checkboxFor e pr st ''partial_submissions'' True ''submissionsAddPartial'' @
     checkboxFor e pr st ''change_submissions'' True ''submissionsEdit'' @
     checkboxFor e pr st ''partial_submissions'' True ''submissionsEditPartial'' @
     checkboxFor e pr st ''validate_submissions'' True ''submissionsValidate'' @
     checkboxFor e pr st ''partial_submissions'' True ''submissionsValidatePartial''"

text \<open>What toggling a drawn checkbox runs.\<close>

definition fire :: "collaborators \<Rightarrow> handler \<Rightarrow> bool \<Rightarrow> state \<Rightarrow> error + state" where
  "fire e h isChecked st = (case h of OnCheckboxChange name \<Rightarrow> onCheckboxChange e name isChecked st)"

subsection \<open>The rule routine as three passes, stated property by property\<close>

text \<open>
  The second description of \<open>applyValidityRules\<close>, written from its documentation and not
  from its loops: each pass says, for every property name \<open>k\<close>, what the object holds
  under \<open>k\<close> afterwards. A checkbox is checked when its property is \<open>true\<close> and unchecked
  when it is \<open>false\<close>.
\<close>

definition checkboxNames :: "collaborators \<Rightarrow> string list" where
  "checkboxNames e = map fst (CHECKBOX_PERM_PAIRS e)"

definition isBool :: "jsval option \<Rightarrow> bool" where
  "isBool v = (case v of Some (JBool b) \<Rightarrow> True | _ \<Rightarrow> False)"

definition isArr :: "jsval option \<Rightarrow> bool" where
  "isArr v = (case v of Some (JArr xs) \<Rightarrow> True | _ \<Rightarrow> False)"

definition checkboxChecked :: "state \<Rightarrow> string \<Rightarrow> bool" where
  "checkboxChecked st c = (entries st c = Some (JBool True))"

definition checkboxUnchecked :: "state \<Rightarrow> string \<Rightarrow> bool" where
  "checkboxUnchecked st c = (entries st c = Some (JBool False))"

text \<open>Every checkbox of the map holds a boolean: it is either checked or unchecked.\<close>

definition checkboxesBoolean :: "collaborators \<Rightarrow> state \<Rightarrow> bool" where
  "checkboxesBoolean e st = list_all (\<lambda>c. isBool (entries st c)) (checkboxNames e)"

text \<open>
  The permission of checkbox \<open>d\<close> is implied by (contradictory to) the permission of
  checkbox \<open>c\<close>: one of the URLs that the definition of \<open>c\<close>'s permission lists names a
  permission whose codename is \<open>d\<close>'s entry in the map.
\<close>

definition namedBy :: "collaborators \<Rightarrow> string list \<Rightarrow> string \<Rightarrow> bool" where
  "namedBy e urls d =
     (\<exists>permUrl \<in> set urls.
        case getPermission e permUrl of
          None \<Rightarrow> False
        | Some permDef \<Rightarrow> map_of (CHECKBOX_PERM_PAIRS e) d = Some (Some (codename permDef)))"

definition permissionImplied :: "collaborators \<Rightarrow> string \<Rightarrow> string \<Rightarrow> bool" where
  "permissionImplied e c d =
     namedBy e (getImpliedPermissions e (getCheckboxPermissionPair e c)) d"

definition permissionContradictory :: "collaborators \<Rightarrow> string \<Rightarrow> string \<Rightarrow> bool" where
  "permissionContradictory e c d =
     namedBy e (getContradictoryPermissions e (getCheckboxPermissionPair e c)) d"

text \<open>Every checkbox that satisfies \<open>P\<close> is set to \<open>v\<close> and disabled.\<close>

definition markAll :: "collaborators \<Rightarrow> bool \<Rightarrow> (string \<Rightarrow> bool) \<Rightarrow> state \<Rightarrow> state" where
  "markAll e v P st =
     st\<lparr>entries := (\<lambda>k.
        if P k then Some (JBool v)
        else if (\<exists>d \<in> set (checkboxNames e). P d \<and> k = d @ ''Disabled'') then Some (JBool True)
        else entries st k)\<rparr>"

definition resetDisabled :: "collaborators \<Rightarrow> state \<Rightarrow> state" where
  "resetDisabled e st =
     st\<lparr>entries := (\<lambda>k.
        if (\<exists>c \<in> set (checkboxNames e). k = c @ ''Disabled'') then Some (JBool False)
        else entries st k)\<rparr>"

definition ruleFor :: "collaborators \<Rightarrow> string \<Rightarrow> state \<Rightarrow> state" where
  "ruleFor e c st =
     (if checkboxChecked st c
      then markAll e False (permissionContradictory e c) (markAll e True (permissionImplied e c) st)
      else st)"

definition emptyUncheckedPartials :: "collaborators \<Rightarrow> state \<Rightarrow> state" where
  "emptyUncheckedPartials e st =
     st\<lparr>entries := (\<lambda>k.
        if (\<exists>c \<in> set (checkboxNames e).
              endsWith c ''Partial'' \<and> checkboxUnchecked st c \<and> k = c @ ''Users'')
        then Some (JArr [])
        else entries st k)\<rparr>"

definition threePasses :: "collaborators \<Rightarrow> state \<Rightarrow> state" where
  "threePasses e st =
     emptyUncheckedPartials e (fold (ruleFor e) (checkboxNames e) (resetDisabled e st))"

text \<open>
  The configuration answers for every permission URL that the definition of a checkbox's
  permission lists; then no lookup of the rule routine meets \<open>undefined\<close>.
\<close>

definition urlsResolve :: "collaborators \<Rightarrow> bool" where
  "urlsResolve e =
     list_all (\<lambda>c.
        list_all (\<lambda>permUrl. getPermission e permUrl \<noteq> None)
          (getImpliedPermissions e (getCheckboxPermissionPair e c) @
           getContradictoryPermissions e (getCheckboxPermissionPair e c)))
       (checkboxNames e)"

subsection \<open>The partial checkboxes and their lists of users\<close>

definition partialCheckboxes :: "string list" where
  "partialCheckboxes =
     [''submissionsViewPartial'', ''submissionsAddPartial'', ''submissionsEditPartial'',
      ''submissionsValidatePartial'']"

text \<open>A partial checkbox that is false has an empty list of users.\<close>

definition partialUsersCleared :: "state \<Rightarrow> bool" where
  "partialUsersCleared st =
     list_all (\<lambda>p. entries st p = Some (JBool False) \<longrightarrow> entries st (p @ ''Users'') = Some (JArr []))
       partialCheckboxes"

text \<open>
  The four lists of users are arrays, as the constructor makes them and as the rule
  routine leaves them.
\<close>

definition partialUsersAreArrays :: "state \<Rightarrow> bool" where
  "partialUsersAreArrays st = list_all (\<lambda>p. isArr (entries st (p @ ''Users''))) partialCheckboxes"

section \<open>Form view tabs (getFormDataTabs)\<close>

text \<open>
  \<open>String.prototype.replace\<close> with a string pattern: the first occurrence of the pattern
  is replaced, and in the replacement text \<open>$$\<close> stands for a dollar sign, \<open>$&\<close> for
  the matched text, \<open>$`\<close> for the text before the match and \<open>$'\<close> for the text after
  it; there are no capture groups, so any other \<open>$\<close> stands for itself.
\<close>

fun splitAtFirst :: "string \<Rightarrow> string \<Rightarrow> (string \<times> string) option" where
  "splitAtFirst searchValue [] = (if searchValue = [] then Some ([], []) else None)"
| "splitAtFirst searchValue (c # cs) =
     (if take (length searchValue) (c # cs) = searchValue
      then Some ([], drop (length searchValue) (c # cs))
      else (case splitAtFirst searchValue cs of
              None \<Rightarrow> None
            | Some (before, after) \<Rightarrow> Some (c # before, after)))"

fun getSubstitution :: "string \<Rightarrow> string \<Rightarrow> string \<Rightarrow> string \<Rightarrow> string" where
  "getSubstitution matched before after [] = []"
| "getSubstitution matched before after [c] = [c]"
| "getSubstitution matched before after (c # d # rest) =
     (if c = CHR ''$'' \<and> d = CHR ''$'' then CHR ''$'' # getSubstitution matched before after rest
      else if c = CHR ''$'' \<and> d = CHR ''&'' then matched @ getSubstitution matched before after rest
      else if c = CHR ''$'' \<and> d = CHR 0x60 then before @ getSubstitution matched before after rest
      else if c = CHR ''$'' \<and> d = CHR 0x27 then after @ getSubstitution matched before after rest
      else c # getSubstitution matched before after (d # rest))"

definition replace :: "string \<Rightarrow> string \<Rightarrow> string \<Rightarrow> string" where
  "replace s searchValue replaceValue =
     (case splitAtFirst searchValue s of
        None \<Rightarrow> s
      | Some (before, after) \<Rightarrow>
          before @ getSubstitution searchValue before after replaceValue @ after)"

text \<open>The route constants of \<open>js/router/routerConstants\<close> are parameters.\<close>

record routes =
  FORM_TABLE :: string
  FORM_REPORT :: string
  FORM_GALLERY :: string
  FORM_DOWNLOADS :: string
  FORM_MAP :: string

record tab =
  label :: string
  iconName :: string
  path :: string
  isDisabled :: "bool option"

definition getFormDataTabs :: "(string \<Rightarrow> string) \<Rightarrow> routes \<Rightarrow> string \<Rightarrow> bool \<Rightarrow> tab list" where
  "getFormDataTabs t ROUTES assetUid hasPartialView =
    [\<lparr>label = t ''Table'', iconName = ''table'',
      path = replace (FORM_TABLE ROUTES) '':uid'' assetUid, isDisabled = None\<rparr>,
     \<lparr>label = t ''Reports'', iconName = ''reports'',
      path = replace (FORM_REPORT ROUTES) '':uid'' assetUid, isDisabled = None\<rparr>,
     \<lparr>label = t ''Gallery'', iconName = ''gallery'',
      path = replace (FORM_GALLERY ROUTES) '':uid'' assetUid, isDisabled = Some hasPartialView\<rparr>,
     \<lparr>label = t ''Downloads'', iconName = ''download'',
      path = replace (FORM_DOWNLOADS ROUTES) '':uid'' assetUid, isDisabled = None\<rparr>,
     \<lparr>label = t ''Map'', iconName = ''map-view'',
      path = replace (FORM_MAP ROUTES) '':uid'' assetUid, isDisabled = None\<rparr>]"

text \<open>
  What it is for a path to be a route with the uid put in: the text before the first
  \<open>:uid\<close> of the route, the uid, and the text after it; a route without \<open>:uid\<close> is
  its own path. This is said of the strings alone, without the search that \<open>replace\<close>
  runs.
\<close>

definition firstOccurrence :: "string \<Rightarrow> string \<Rightarrow> string \<Rightarrow> string \<Rightarrow> bool" where
  "firstOccurrence searchValue s before after \<longleftrightarrow>
     s = before @ searchValue @ after \<and>
     (\<forall>b a. s = b @ searchValue @ a \<longrightarrow> length before \<le> length b)"

definition substituted :: "string \<Rightarrow> string \<Rightarrow> string \<Rightarrow> bool" where
  "substituted route assetUid p \<longleftrightarrow>
     (\<forall>before after. firstOccurrence '':uid'' route before after \<longrightarrow> p = before @ assetUid @ after) \<and>
     ((\<forall>b a. route \<noteq> b @ '':uid'' @ a) \<longrightarrow> p = route)"

text \<open>
  A replacement pattern of \<open>replace\<close> in a text: a dollar sign followed by a dollar
  sign, an ampersand, a backtick or an apostrophe.
\<close>

fun hasReplacementPattern :: "string \<Rightarrow> bool" where
  "hasReplacementPattern [] = False"
| "hasReplacementPattern [c] = False"
| "hasReplacementPattern (c # d # rest) =
     ((c = CHR ''$'' \<and> (d = CHR ''$'' \<or> d = CHR ''&'' \<or> d = CHR 0x60 \<or> d = CHR 0x27)) \<or>
      hasReplacementPattern (d # rest))"

section \<open>The usage dashboard (Usage)\<close>

text \<open>
  JavaScript numbers are any type \<open>'n\<close> with a zero, numerals and a division; no law of
  arithmetic is assumed of them, so what is proved of the component holds for IEEE doubles
  as it does for the rationals.
\<close>

record 'n usageResponse =
  total_storage_bytes :: 'n
  total_submission_count_current_month :: 'n
  total_nlp_asr_seconds :: 'n
  total_nlp_mt_characters :: 'n

record 'n UsageState =
  storage :: 'n
  monthlySubmissions :: 'n
  transcriptionMinutes :: 'n
  translationChars :: 'n

text \<open>The argument of \<open>useState\<close>, and the callback of \<open>getUsage().then\<close>.\<close>

definition Usage_useState :: "('n :: {zero, numeral, inverse}) UsageState" where
  "Usage_useState =
     \<lparr>storage = 0, monthlySubmissions = 0, transcriptionMinutes = 0, translationChars = 0\<rparr>"

definition Usage_then :: "('n :: {zero, numeral, inverse}) usageResponse \<Rightarrow> 'n UsageState" where
  "Usage_then data =
     \<lparr>storage = total_storage_bytes data / 1000000,
      monthlySubmissions = total_submission_count_current_month data,
      transcriptionMinutes = total_nlp_asr_seconds data / 60,
      translationChars = total_nlp_mt_characters data\<rparr>"

text \<open>
  The life of the component: it is mounted with the state given to \<open>useState\<close>, and each
  time the promise of \<open>getUsage\<close> resolves, \<open>setUsage\<close> replaces the state.
\<close>

datatype 'n usageEvent = Resolved "'n usageResponse" | Rerendered

fun Usage_step :: "('n :: {zero, numeral, inverse}) UsageState \<Rightarrow> 'n usageEvent \<Rightarrow> 'n UsageState" where
  "Usage_step usage (Resolved data) = Usage_then data"
| "Usage_step usage Rerendered = usage"

definition Usage_run :: "('n :: {zero, numeral, inverse}) usageEvent list \<Rightarrow> 'n UsageState" where
  "Usage_run events = foldl Usage_step Usage_useState events"

section \<open>Quick actions of a project row (ProjectQuickActions)\<close>

record download =
  format :: string
  file_url :: string

text \<open>
  An \<open>AssetResponse\<close> has the properties \<open>permissions\<close> and \<open>downloads\<close>, a
  \<open>ProjectViewAsset\<close> has not: \<open>None\<close> is the property missing from the object. The
  properties \<open>uid\<close> and \<open>permissions\<close> of an asset are the fields \<open>asset_uid\<close> and
  \<open>asset_permissions\<close>, the plain names being taken by the properties of the editor.
\<close>

record asset =
  asset_uid :: string
  asset_type :: string
  has_deployment :: bool
  deployment__active :: bool
  asset_permissions :: "perm list option"
  downloads :: "download list option"

datatype action =
    OpenInFormBuilder string
  | ArchiveAsset asset
  | UnarchiveAsset asset
  | ManageAssetSharing string
  | CloneAsset asset
  | ReplaceAssetForm asset
  | ManageAssetLanguages string
  | DownloadUrl string
  | CloneAssetAsTemplate string string
  | CloneAssetAsSurvey string string
  | DeleteAsset asset string

record button =
  startIcon :: string
  tooltip :: "string option"
  button_label :: "string option"
  onClick :: "action option"

datatype element = Button button | KoboDropdown button "element list"

text \<open>What the component imports: \<open>ASSET_TYPES\<close>, \<open>userCan\<close>, \<open>getAssetDisplayName\<close>, \<open>t\<close>.\<close>

record quickActionsEnv =
  collection_id :: string
  survey_id :: string
  template_id :: string
  userCan :: "string \<Rightarrow> asset \<Rightarrow> bool"
  getAssetDisplayName_final :: "asset \<Rightarrow> string"
  translate :: "string \<Rightarrow> string"

definition isEditingPossible :: "quickActionsEnv \<Rightarrow> asset \<Rightarrow> bool" where
  "isEditingPossible q a =
     (if asset_permissions a \<noteq> None then userCan q ''change_asset'' a else False)"

definition renderIf :: "bool \<Rightarrow> element \<Rightarrow> element list" where
  "renderIf b el = (if b then [el] else [])"

definition bare :: "string \<Rightarrow> string option \<Rightarrow> string option \<Rightarrow> action option \<Rightarrow> element" where
  "bare icon tip lab act =
     Button \<lparr>startIcon = icon, tooltip = tip, button_label = lab, onClick = act\<rparr>"

text \<open>
  The label of a download button is \<open>t('Download')\<close>, a no-break space (two bytes in
  UTF-8) and the format in upper case (of the ASCII letters).
\<close>

definition toUpperCase :: "string \<Rightarrow> string" where
  "toUpperCase s =
     map (\<lambda>c. if (97 :: nat) \<le> of_char c \<and> of_char c \<le> (122 :: nat)
              then char_of (of_char c - (32 :: nat)) else c) s"

definition nbsp :: string where
  "nbsp = [CHR 0xC2, CHR 0xA0]"

definition downloadButton :: "quickActionsEnv \<Rightarrow> download \<Rightarrow> element" where
  "downloadButton q file =
     (let icon = (if format file = ''XML'' then ''file-xml''
                  else if format file = ''XLS'' then ''file-xls'' else ''file'')
      in bare icon None (Some (translate q ''Download'' @ nbsp @ toUpperCase (format file)))
           (Some (DownloadUrl (file_url file))))"

definition menuContent :: "quickActionsEnv \<Rightarrow> asset \<Rightarrow> element list" where
  "menuContent q a =
     [bare ''duplicate'' None (Some (translate q ''Clone'')) (Some (CloneAsset a))] @
     renderIf (isEditingPossible q a)
       (bare ''replace'' None (Some (translate q ''Replace form'')) (Some (ReplaceAssetForm a))) @
     renderIf (isEditingPossible q a)
       (bare ''language'' None (Some (translate q ''Manage translations''))
          (Some (ManageAssetLanguages (asset_uid a)))) @
     (case downloads a of None \<Rightarrow> [] | Some files \<Rightarrow> map (downloadButton q) files) @
     renderIf (asset_type a = survey_id q)
       (bare ''template'' None (Some (translate q ''Create template''))
          (Some (CloneAssetAsTemplate (asset_uid a) (getAssetDisplayName_final q a)))) @
     renderIf (asset_type a = template_id q)
       (bare ''projects'' None (Some (translate q ''Create project''))
          (Some (CloneAssetAsSurvey (asset_uid a) (getAssetDisplayName_final q a)))) @
     renderIf (isEditingPossible q a)
       (bare ''trash'' None (Some (translate q ''Delete''))
          (Some (DeleteAsset a (getAssetDisplayName_final q a))))"

definition ProjectQuickActions :: "quickActionsEnv \<Rightarrow> asset \<Rightarrow> element list" where
  "ProjectQuickActions q a =
     renderIf (isEditingPossible q a \<and> asset_type a \<noteq> collection_id q)
       (bare ''edit'' (Some (translate q ''Edit in Form Builder'')) None
          (Some (OpenInFormBuilder (asset_uid a)))) @
     renderIf (isEditingPossible q a \<and> asset_type a = survey_id q \<and>
           has_deployment a \<and> deployment__active a)
       (bare ''archived'' (Some (translate q ''Archive project'')) None (Some (ArchiveAsset a))) @
     renderIf (isEditingPossible q a \<and> asset_type a = survey_id q \<and>
           has_deployment a \<and> deployment__active a)
       (bare ''archived'' (Some (translate q ''Unarchive project'')) None
          (Some (UnarchiveAsset a))) @
     [bare ''user-share'' (Some (translate q ''Share project'')) None
        (Some (ManageAssetSharing (asset_uid a))),
      KoboDropdown \<lparr>startIcon = ''more'', tooltip = None, button_label = None, onClick = None\<rparr>
        (menuContent q a)]"

text \<open>
  The condition stated for the two buttons in words (editing is possible, the asset is a
  survey, it has a deployment, the deployment is active), and the two buttons as the
  component draws them.
\<close>

definition archiveCondition :: "quickActionsEnv \<Rightarrow> asset \<Rightarrow> bool" where
  "archiveCondition q a =
     ((asset_permissions a \<noteq> None \<and> userCan q ''change_asset'' a) \<and>
      asset_type a = survey_id q \<and> has_deployment a \<and> deployment__active a)"

definition archiveButton :: "quickActionsEnv \<Rightarrow> asset \<Rightarrow> element" where
  "archiveButton q a =
     Button \<lparr>startIcon = ''archived'', tooltip = Some (translate q ''Archive project''),
             button_label = None, onClick = Some (ArchiveAsset a)\<rparr>"

definition unarchiveButton :: "quickActionsEnv \<Rightarrow> asset \<Rightarrow> element" where
  "unarchiveButton q a =
     Button \<lparr>startIcon = ''archived'', tooltip = Some (translate q ''Unarchive project''),
             button_label = None, onClick = Some (UnarchiveAsset a)\<rparr>"

section \<open>Example values\<close>

text \<open>
  A permission configuration in the shape the backend serves it, and a state of the editor
  in which \<open>submissionsEdit\<close> is checked and a partial-view user is left over.
\<close>

definition demoPermissions :: "permDef list" where
  "demoPermissions =
    [\<lparr>url = ''/p/view_asset/'', codename = ''view_asset'', implied = [], contradictory = []\<rparr>,
     \<lparr>url = ''/p/change_asset/'', codename = ''change_asset'',
      implied = [''/p/view_asset/''], contradictory = []\<rparr>,
     \<lparr>url = ''/p/add_submissions/'', codename = ''add_submissions'',
      implied = [''/p/view_asset/''], contradictory = []\<rparr>,
     \<lparr>url = ''/p/view_submissions/'', codename = ''view_submissions'',
      implied = [''/p/view_asset/''], contradictory = [''/p/partial_submissions/'']\<rparr>,
     \<lparr>url = ''/p/partial_submissions/'', codename = ''partial_submissions'',
      implied = [''/p/view_asset/''],
      contradictory = [''/p/view_submissions/'', ''/p/change_submissions/'',
                       ''/p/validate_submissions/'']\<rparr>,
     \<lparr>url = ''/p/change_submissions/'', codename = ''change_submissions'',
      implied = [''/p/view_submissions/'', ''/p/view_asset/''],
      contradictory = [''/p/partial_submissions/'']\<rparr>,
     \<lparr>url = ''/p/validate_submissions/'', codename = ''validate_submissions'',
      implied = [''/p/view_submissions/'', ''/p/view_asset/''],
      contradictory = [''/p/partial_submissions/'']\<rparr>]"

definition demoCollaborators :: collaborators where
  "demoCollaborators =
    \<lparr>PERMISSIONS_CODENAMES = (\<lambda>c. if c \<in> set (map codename demoPermissions) then Some c else None),
     ANON_USERNAME = ''AnonymousUser'',
     getPermissionByCodename = (\<lambda>c. find (\<lambda>d. Some (codename d) = c) demoPermissions),
     getPermission = (\<lambda>u. find (\<lambda>d. url d = u) demoPermissions),
     buildFormData = (\<lambda>perms. Map.empty),
     parseFormData =
       (\<lambda>fd. if fd_fields fd ''formView'' = Some (JBool True)
             then [\<lparr>user = ''/users/'' @ fd_username fd @ ''/'', permission = ''/p/view_asset/''\<rparr>]
             else []),
     buildUserUrl = (\<lambda>u. ''/users/'' @ u @ ''/''),
     t_fn = (\<lambda>s. s),
     checkUsername = (\<lambda>u. if u = ''bob'' then Some True else if u = ''nobody'' then Some False else None),
     onLine = True\<rparr>"

definition demoState0 :: state where
  "demoState0 = put ''submissionsViewPartialUsers'' (JArr [''carol'']) initialState"

definition demoState :: state where
  "demoState = put ''submissionsEdit'' (JBool True) demoState0"

definition demoProps :: props where
  "demoProps =
    \<lparr>uid = ''aSurvey1'',
     props_username = None,
     permissions = None,
     assignablePerms = (\<lambda>u. if u \<in> set (map url demoPermissions) then Some u else None),
     nonOwnerPerms =
       [\<lparr>user = ''/users/bob/'', permission = ''/p/view_asset/''\<rparr>,
        \<lparr>user = ''/users/eve/'', permission = ''/p/change_asset/''\<rparr>],
     onSubmitEnd = Some ''onPermissionsEditorSubmitEnd''\<rparr>"

text \<open>
  States of the form: the anonymous user with a checkbox checked; \<open>bob\<close> about to be
  granted the view permission; \<open>bob\<close> with a choice the parser makes nothing of; a
  submission pending; a username just typed. Properties without the callback, and the
  browser offline.
\<close>

definition anonState :: state where
  "anonState = (put ''formView'' (JBool True) initialState)\<lparr>username := ''AnonymousUser''\<rparr>"

definition grantState :: state where
  "grantState = (put ''formView'' (JBool True) initialState)\<lparr>username := ''bob''\<rparr>"

definition noChangeState :: state where
  "noChangeState = (put ''formEdit'' (JBool True) initialState)\<lparr>username := ''bob''\<rparr>"


definition propsWithoutCallback :: props where
  "propsWithoutCallback = demoProps\<lparr>onSubmitEnd := None\<rparr>"

definition offlineCollaborators :: collaborators where
  "offlineCollaborators = demoCollaborators\<lparr>onLine := False\<rparr>"

definition typed :: "string \<Rightarrow> state" where
  "typed u = onUsernameChange u initialState"

text \<open>Routes, and a deployed survey seen as a full asset and as a row of a project view.\<close>

definition demoRoutes :: routes where
  "demoRoutes =
    \<lparr>FORM_TABLE = ''/forms/:uid/data/table'',
     FORM_REPORT = ''/forms/:uid/data/report'',
     FORM_GALLERY = ''/forms/:uid/data/gallery'',
     FORM_DOWNLOADS = ''/forms/:uid/data/downloads'',
     FORM_MAP = ''/forms/:uid/data/map''\<rparr>"

definition demoQuickActionsEnv :: quickActionsEnv where
  "demoQuickActionsEnv =
    \<lparr>collection_id = ''collection'',
     survey_id = ''survey'',
     template_id = ''template'',
     userCan = (\<lambda>permName a.
        case asset_permissions a of
          None \<Rightarrow> False
        | Some perms \<Rightarrow> \<exists>p \<in> set perms. permission p = ''/p/'' @ permName @ ''/''),
     getAssetDisplayName_final = (\<lambda>a. ''Untitled''),
     translate = (\<lambda>s. s)\<rparr>"

definition deployedSurvey :: asset where
  "deployedSurvey =
    \<lparr>asset_uid = ''aSurvey1'',
     asset_type = ''survey'',
     has_deployment = True,
     deployment__active = True,
     asset_permissions = Some [\<lparr>user = ''/users/bob/'', permission = ''/p/change_asset/''\<rparr>],
     downloads = Some [\<lparr>format = ''xls'', file_url = ''/assets/aSurvey1.xls''\<rparr>]\<rparr>"

definition projectViewSurvey :: asset where
  "projectViewSurvey = deployedSurvey\<lparr>asset_permissions := None, downloads := None\<rparr>"

section \<open>The validity rules are three passes\<close>

subsection \<open>Property names\<close>

lemma checkboxNames_eq:
  "checkboxNames e =
    [''formView'', ''formEdit'', ''submissionsAdd'', ''submissionsAddPartial'',
     ''submissionsView'', ''submissionsViewPartial'', ''submissionsEdit'',
     ''submissionsEditPartial'', ''submissionsValidate'', ''submissionsValidatePartial'']"
  by (simp add: checkboxNames_def CHECKBOX_PERM_PAIRS_def)

lemma distinct_checkboxNames: "distinct (checkboxNames e)"
  by (simp add: checkboxNames_eq)

lemma endsWith_append: "endsWith (c @ s) s"
  by (simp add: endsWith_def)

lemma no_name_Disabled: "c \<in> set (checkboxNames e) \<Longrightarrow> \<not> endsWith c ''Disabled''"
  by (auto simp add: checkboxNames_eq endsWith_def)

lemma no_name_Users: "c \<in> set (checkboxNames e) \<Longrightarrow> \<not> endsWith c ''Users''"
  by (auto simp add: checkboxNames_eq endsWith_def)

lemma Disabled_not_name: "d \<in> set (checkboxNames e) \<Longrightarrow> c @ ''Disabled'' \<noteq> d"
  using no_name_Disabled endsWith_append by metis

lemma Users_not_name: "d \<in> set (checkboxNames e) \<Longrightarrow> c @ ''Users'' \<noteq> d"
  using no_name_Users endsWith_append by metis


subsection \<open>Only the keyed properties change\<close>

lemma frame_trans:
  "b = a\<lparr>entries := entries b\<rparr> \<Longrightarrow> c = b\<lparr>entries := entries c\<rparr> \<Longrightarrow> c = a\<lparr>entries := entries c\<rparr>"
  by (cases a, cases b, cases c) simp

lemma frame_fold:
  assumes "\<And>x s. f x s = s\<lparr>entries := entries (f x s)\<rparr>"
  shows "fold f xs s = s\<lparr>entries := entries (fold f xs s)\<rparr>"
proof (induction xs arbitrary: s)
  case Nil
  show ?case by simp
next
  case (Cons x xs)
  have "fold f xs (f x s) = (f x s)\<lparr>entries := entries (fold f xs (f x s))\<rparr>"
    by (rule Cons.IH)
  with assms [of x s] have "fold f xs (f x s) = s\<lparr>entries := entries (fold f xs (f x s))\<rparr>"
    by (rule frame_trans [rotated -1, rotated])
  then show ?case by simp
qed

lemma frame_eqI: "a = s\<lparr>entries := entries a\<rparr> \<Longrightarrow> entries a = m \<Longrightarrow> a = s\<lparr>entries := m\<rparr>"
  by simp

lemma entries_put: "entries (put k v s) = (entries s)(k \<mapsto> v)"
  by (simp add: put_def)

lemma setAndDisable_frame: "setAndDisable v d s = s\<lparr>entries := entries (setAndDisable v d s)\<rparr>"
  by (simp add: setAndDisable_def put_def)

lemma entries_setAndDisable:
  "entries (setAndDisable v d s) = (entries s)(d \<mapsto> JBool v, d @ ''Disabled'' \<mapsto> JBool True)"
  by (simp add: setAndDisable_def put_def)

subsection \<open>The inner loops\<close>

lemma entries_fold_setAndDisable:
  assumes "\<forall>d \<in> set ds. \<forall>d' \<in> set ds. d @ ''Disabled'' \<noteq> d'"
  shows "entries (fold (setAndDisable v) ds s) k =
     (if k \<in> set ds then Some (JBool v)
      else if (\<exists>d \<in> set ds. k = d @ ''Disabled'') then Some (JBool True)
      else entries s k)"
  using assms
proof (induction ds arbitrary: s)
  case Nil
  show ?case by simp
next
  case (Cons d ds)
  have IH: "entries (fold (setAndDisable v) ds (setAndDisable v d s)) k =
     (if k \<in> set ds then Some (JBool v)
      else if (\<exists>d \<in> set ds. k = d @ ''Disabled'') then Some (JBool True)
      else entries (setAndDisable v d s) k)"
    by (rule Cons.IH) (use Cons.prems in simp)
  show ?case
    using Cons.prems by (auto simp add: IH entries_setAndDisable)
qed

lemma fold_setAndDisable_markAll:
  assumes "set ds \<subseteq> set (checkboxNames e)"
  shows "fold (setAndDisable v) ds s = markAll e v (\<lambda>k. k \<in> set ds) s"
proof -
  have fr: "fold (setAndDisable v) ds s = s\<lparr>entries := entries (fold (setAndDisable v) ds s)\<rparr>"
    by (rule frame_fold) (rule setAndDisable_frame)
  have dis: "\<forall>d \<in> set ds. \<forall>d' \<in> set ds. d @ ''Disabled'' \<noteq> d'"
    using assms Disabled_not_name by blast
  have "entries (fold (setAndDisable v) ds s) =
     (\<lambda>k. if k \<in> set ds then Some (JBool v)
      else if (\<exists>d \<in> set (checkboxNames e). d \<in> set ds \<and> k = d @ ''Disabled'') then Some (JBool True)
      else entries s k)"
    using assms by (auto simp add: fun_eq_iff entries_fold_setAndDisable [OF dis])
  with fr show ?thesis
    unfolding markAll_def by (rule frame_eqI)
qed

lemma frame_cong:
  "a = s\<lparr>entries := entries a\<rparr> \<Longrightarrow> b = s\<lparr>entries := entries b\<rparr> \<Longrightarrow> entries a = entries b \<Longrightarrow> a = b"
  by metis

lemma markAll_frame: "markAll e v P s = s\<lparr>entries := entries (markAll e v P s)\<rparr>"
  by (simp add: markAll_def)

lemma entries_markAll:
  "entries (markAll e v P s) k =
     (if P k then Some (JBool v)
      else if (\<exists>d \<in> set (checkboxNames e). P d \<and> k = d @ ''Disabled'') then Some (JBool True)
      else entries s k)"
  by (simp add: markAll_def)

lemma markAll_compose:
  assumes "\<And>k. P k \<Longrightarrow> k \<in> set (checkboxNames e)"
  shows "markAll e v Q (markAll e v P s) = markAll e v (\<lambda>k. P k \<or> Q k) s"
proof (rule frame_cong)
  show "markAll e v Q (markAll e v P s) = s\<lparr>entries := entries (markAll e v Q (markAll e v P s))\<rparr>"
    using markAll_frame markAll_frame by (rule frame_trans)
  show "markAll e v (\<lambda>k. P k \<or> Q k) s = s\<lparr>entries := entries (markAll e v (\<lambda>k. P k \<or> Q k) s)\<rparr>"
    by (rule markAll_frame)
  have neq: "\<And>k d. P k \<Longrightarrow> k \<noteq> d @ ''Disabled''"
    using assms Disabled_not_name by blast
  show "entries (markAll e v Q (markAll e v P s)) = entries (markAll e v (\<lambda>k. P k \<or> Q k) s)"
    using neq by (auto simp add: fun_eq_iff entries_markAll)
qed

lemma markAll_none: "markAll e v (\<lambda>k. False) s = s"
  by (simp add: markAll_def)

lemma map_of_filter_keys:
  "distinct (map fst ps) \<Longrightarrow>
     k \<in> set (map fst (filter (\<lambda>(c, p). p = y) ps)) \<longleftrightarrow> map_of ps k = Some y"
  by (induction ps) (auto simp add: rev_image_eqI)

lemma getPermissionCheckboxPairs_iff:
  "k \<in> set (getPermissionCheckboxPairs e x) \<longleftrightarrow> map_of (CHECKBOX_PERM_PAIRS e) k = Some (Some x)"
  unfolding getPermissionCheckboxPairs_def
  using distinct_checkboxNames [of e]
  by (simp only: checkboxNames_def map_of_filter_keys)

lemma getPermissionCheckboxPairs_names:
  "set (getPermissionCheckboxPairs e x) \<subseteq> set (checkboxNames e)"
  by (auto simp add: getPermissionCheckboxPairs_def checkboxNames_def)

lemma map_of_pairs_name:
  "map_of (CHECKBOX_PERM_PAIRS e) k = Some y \<Longrightarrow> k \<in> set (checkboxNames e)"
  unfolding checkboxNames_def by (metis map_of_SomeD fst_conv image_eqI set_map)

lemma forPermUrl_Some:
  "getPermission e u = Some pd \<Longrightarrow>
     forPermUrl e v u s = Inr (fold (setAndDisable v) (getPermissionCheckboxPairs e (codename pd)) s)"
  by (simp add: forPermUrl_def)

lemma forPermUrl_None: "getPermission e u = None \<Longrightarrow> forPermUrl e v u s = Inl TypeError"
  by (simp add: forPermUrl_def)

lemma forEachE_forPermUrl:
  "forEachE (forPermUrl e v) urls s = Inr s' \<Longrightarrow> s' = markAll e v (namedBy e urls) s"
proof (induction urls arbitrary: s)
  case Nil
  then show ?case by (simp add: namedBy_def markAll_none)
next
  case (Cons u urls)
  from Cons.prems obtain pd where pd: "getPermission e u = Some pd"
    by (cases "getPermission e u") (simp_all add: forPermUrl_None)
  define s1 where "s1 = fold (setAndDisable v) (getPermissionCheckboxPairs e (codename pd)) s"
  from Cons.prems pd have rest: "forEachE (forPermUrl e v) urls s1 = Inr s'"
    by (simp add: forPermUrl_Some s1_def)
  have s1: "s1 = markAll e v (\<lambda>k. map_of (CHECKBOX_PERM_PAIRS e) k = Some (Some (codename pd))) s"
    unfolding s1_def
    by (simp add: fold_setAndDisable_markAll [OF getPermissionCheckboxPairs_names]
        getPermissionCheckboxPairs_iff)
  have "s' = markAll e v (namedBy e urls) s1"
    using rest by (rule Cons.IH)
  also have "\<dots> = markAll e v (\<lambda>k. map_of (CHECKBOX_PERM_PAIRS e) k = Some (Some (codename pd))
                                  \<or> namedBy e urls k) s"
    unfolding s1 by (rule markAll_compose) (rule map_of_pairs_name)
  also have "(\<lambda>k. map_of (CHECKBOX_PERM_PAIRS e) k = Some (Some (codename pd)) \<or> namedBy e urls k)
             = namedBy e (u # urls)"
    by (auto simp add: namedBy_def pd fun_eq_iff)
  finally show ?case .
qed


subsection \<open>One checkbox\<close>

lemma permissionImplied_eta:
  "permissionImplied e c = namedBy e (getImpliedPermissions e (getCheckboxPermissionPair e c))"
  by (simp add: fun_eq_iff permissionImplied_def)

lemma permissionContradictory_eta:
  "permissionContradictory e c =
     namedBy e (getContradictoryPermissions e (getCheckboxPermissionPair e c))"
  by (simp add: fun_eq_iff permissionContradictory_def)

lemma applyValidityRulesForCheckbox_ruleFor:
  assumes "applyValidityRulesForCheckbox e c s = Inr s'" and "isBool (entries s c)"
  shows "s' = ruleFor e c s"
proof (cases "entries s c = Some (JBool False)")
  case True
  with assms(1) show ?thesis
    by (simp add: applyValidityRulesForCheckbox_def ruleFor_def checkboxChecked_def)
next
  case False
  with assms(2) have checked: "checkboxChecked s c"
    by (auto simp add: isBool_def checkboxChecked_def split: option.splits jsval.splits)
  let ?imp = "getImpliedPermissions e (getCheckboxPermissionPair e c)"
  let ?con = "getContradictoryPermissions e (getCheckboxPermissionPair e c)"
  from assms(1) False obtain s1 where
    s1: "forEachE (forPermUrl e True) ?imp s = Inr s1" and
    s': "forEachE (forPermUrl e False) ?con s1 = Inr s'"
    by (auto simp add: applyValidityRulesForCheckbox_def Let_def split: sum.splits)
  from s1 have "s1 = markAll e True (permissionImplied e c) s"
    unfolding permissionImplied_eta by (rule forEachE_forPermUrl)
  moreover from s' have "s' = markAll e False (permissionContradictory e c) s1"
    unfolding permissionContradictory_eta by (rule forEachE_forPermUrl)
  ultimately show ?thesis
    using checked by (simp add: ruleFor_def)
qed

lemma forEachE_total:
  assumes "\<And>x s. x \<in> set xs \<Longrightarrow> \<exists>s'. f x s = Inr s'"
  shows "\<exists>s'. forEachE f xs s = Inr s'"
  using assms
proof (induction xs arbitrary: s)
  case Nil
  show ?case by simp
next
  case (Cons x xs)
  from Cons.prems [of x s] obtain s1 where s1: "f x s = Inr s1" by auto
  have "\<exists>s'. forEachE f xs s1 = Inr s'"
    by (rule Cons.IH) (simp add: Cons.prems)
  with s1 show ?case by simp
qed

lemma applyValidityRulesForCheckbox_total:
  assumes "urlsResolve e" and "c \<in> set (checkboxNames e)"
  shows "\<exists>s'. applyValidityRulesForCheckbox e c s = Inr s'"
proof -
  let ?imp = "getImpliedPermissions e (getCheckboxPermissionPair e c)"
  let ?con = "getContradictoryPermissions e (getCheckboxPermissionPair e c)"
  from assms have res: "\<And>u. u \<in> set (?imp @ ?con) \<Longrightarrow> getPermission e u \<noteq> None"
    unfolding urlsResolve_def list_all_iff by blast
  have step: "\<And>v u s. u \<in> set (?imp @ ?con) \<Longrightarrow> \<exists>s'. forPermUrl e v u s = Inr s'"
    using res by (fastforce simp add: forPermUrl_def split: option.splits)
  obtain s1 where s1: "forEachE (forPermUrl e True) ?imp s = Inr s1"
    using forEachE_total [of ?imp "forPermUrl e True" s] step by auto
  obtain s2 where s2: "forEachE (forPermUrl e False) ?con s1 = Inr s2"
    using forEachE_total [of ?con "forPermUrl e False" s1] step by auto
  show ?thesis
    using s1 s2 by (simp add: applyValidityRulesForCheckbox_def Let_def)
qed

subsection \<open>Booleans stay booleans\<close>

lemma isBool_markAll: "isBool (entries s k) \<Longrightarrow> isBool (entries (markAll e v P s) k)"
  by (simp add: entries_markAll isBool_def)

lemma checkboxesBoolean_ruleFor: "checkboxesBoolean e s \<Longrightarrow> checkboxesBoolean e (ruleFor e c s)"
  by (simp add: checkboxesBoolean_def list_all_iff ruleFor_def isBool_markAll)

lemma checkboxesBoolean_resetDisabled:
  "checkboxesBoolean e s \<Longrightarrow> checkboxesBoolean e (resetDisabled e s)"
  by (simp add: checkboxesBoolean_def list_all_iff resetDisabled_def isBool_def)

subsection \<open>The three loops\<close>

lemma forEachE_fst: "forEachE (\<lambda>(c, p). f c) ps s = forEachE f (map fst ps) s"
  by (induction ps arbitrary: s) (auto split: sum.splits)

lemma rules_loop:
  assumes "forEachE (applyValidityRulesForCheckbox e) cs s = Inr s'"
    and "set cs \<subseteq> set (checkboxNames e)" and "checkboxesBoolean e s"
  shows "s' = fold (ruleFor e) cs s"
  using assms
proof (induction cs arbitrary: s)
  case Nil
  then show ?case by simp
next
  case (Cons c cs)
  from Cons.prems(1) obtain s1 where
    s1: "applyValidityRulesForCheckbox e c s = Inr s1" and
    rest: "forEachE (applyValidityRulesForCheckbox e) cs s1 = Inr s'"
    by (auto split: sum.splits)
  from Cons.prems(2,3) have "isBool (entries s c)"
    by (simp add: checkboxesBoolean_def list_all_iff)
  with s1 have eq: "s1 = ruleFor e c s"
    by (rule applyValidityRulesForCheckbox_ruleFor)
  have "s' = fold (ruleFor e) cs s1"
    using rest Cons.prems(2,3) by (intro Cons.IH) (simp_all add: eq checkboxesBoolean_ruleFor)
  then show ?case by (simp add: eq)
qed

lemma rules_loop_total:
  assumes "urlsResolve e" and "set cs \<subseteq> set (checkboxNames e)"
  shows "\<exists>s'. forEachE (applyValidityRulesForCheckbox e) cs s = Inr s'"
  by (rule forEachE_total) (use assms applyValidityRulesForCheckbox_total in blast)

lemma entries_fold_enable:
  "entries (fold (\<lambda>(c, p). put (c @ ''Disabled'') (JBool False)) ps s) k =
     (if (\<exists>c \<in> set (map fst ps). k = c @ ''Disabled'') then Some (JBool False) else entries s k)"
  by (induction ps arbitrary: s) (auto simp add: entries_put)

lemma enableAll_resetDisabled: "enableAll e s = resetDisabled e s"
proof (rule frame_cong)
  show "enableAll e s = s\<lparr>entries := entries (enableAll e s)\<rparr>"
    unfolding enableAll_def by (rule frame_fold) (simp add: put_def split_def)
  show "resetDisabled e s = s\<lparr>entries := entries (resetDisabled e s)\<rparr>"
    by (simp add: resetDisabled_def)
  show "entries (enableAll e s) = entries (resetDisabled e s)"
    by (simp add: fun_eq_iff enableAll_def entries_fold_enable resetDisabled_def checkboxNames_def)
qed


lemma entries_cleanupStep:
  "entries (cleanupStep (c, p) s) k =
     (if endsWith c ''Partial'' \<and> entries s c = Some (JBool False) \<and> k = c @ ''Users''
      then Some (JArr []) else entries s k)"
  by (simp add: cleanupStep_def entries_put)

lemma cleanupStep_frame: "cleanupStep x s = s\<lparr>entries := entries (cleanupStep x s)\<rparr>"
  by (cases x) (simp add: cleanupStep_def put_def)

lemma entries_fold_cleanup:
  assumes "set (map fst ps) \<subseteq> set (checkboxNames e)"
  shows "entries (fold cleanupStep ps s) k =
     (if (\<exists>c \<in> set (map fst ps).
            endsWith c ''Partial'' \<and> entries s c = Some (JBool False) \<and> k = c @ ''Users'')
      then Some (JArr []) else entries s k)"
  using assms
proof (induction ps arbitrary: s)
  case Nil
  show ?case by simp
next
  case (Cons x ps)
  obtain c p where x: "x = (c, p)" by (cases x)
  have names: "set (map fst ps) \<subseteq> set (checkboxNames e)"
    using Cons.prems by simp
  have same: "entries (cleanupStep (c, p) s) c' = entries s c'" if "c' \<in> set (map fst ps)" for c'
  proof -
    from that names have "c' \<in> set (checkboxNames e)" by blast
    then have "c @ ''Users'' \<noteq> c'" by (rule Users_not_name)
    then have "c' \<noteq> c @ ''Users''" by blast
    then show ?thesis by (simp add: entries_cleanupStep)
  qed
  have "entries (fold cleanupStep ps (cleanupStep (c, p) s)) k =
     (if (\<exists>c' \<in> set (map fst ps).
            endsWith c' ''Partial'' \<and> entries (cleanupStep (c, p) s) c' = Some (JBool False)
            \<and> k = c' @ ''Users'')
      then Some (JArr []) else entries (cleanupStep (c, p) s) k)"
    using names by (rule Cons.IH)
  also have "\<dots> =
     (if (\<exists>c' \<in> set (map fst ps).
            endsWith c' ''Partial'' \<and> entries s c' = Some (JBool False) \<and> k = c' @ ''Users'')
      then Some (JArr []) else entries (cleanupStep (c, p) s) k)"
    using same by (metis (no_types, lifting))
  finally show ?case
    by (auto simp add: x entries_cleanupStep)
qed

lemma cleanupPartialUsers_emptyUncheckedPartials:
  "cleanupPartialUsers e s = emptyUncheckedPartials e s"
proof (rule frame_cong)
  have fold_eq: "cleanupPartialUsers e s = fold cleanupStep (CHECKBOX_PERM_PAIRS e) s"
    by (simp add: cleanupPartialUsers_def cleanupStep_def)
  show "cleanupPartialUsers e s = s\<lparr>entries := entries (cleanupPartialUsers e s)\<rparr>"
    unfolding fold_eq by (rule frame_fold) (rule cleanupStep_frame)
  show "emptyUncheckedPartials e s = s\<lparr>entries := entries (emptyUncheckedPartials e s)\<rparr>"
    by (simp add: emptyUncheckedPartials_def)
  have sub: "set (map fst (CHECKBOX_PERM_PAIRS e)) \<subseteq> set (checkboxNames e)"
    by (simp add: checkboxNames_def)
  show "entries (cleanupPartialUsers e s) = entries (emptyUncheckedPartials e s)"
  proof (rule ext)
    fix k
    have "entries (emptyUncheckedPartials e s) k =
       (if (\<exists>c \<in> set (map fst (CHECKBOX_PERM_PAIRS e)).
            endsWith c ''Partial'' \<and> entries s c = Some (JBool False) \<and> k = c @ ''Users'')
        then Some (JArr []) else entries s k)"
      by (simp add: emptyUncheckedPartials_def checkboxUnchecked_def checkboxNames_def)
    then show "entries (cleanupPartialUsers e s) k = entries (emptyUncheckedPartials e s) k"
      unfolding fold_eq by (simp only: entries_fold_cleanup [OF sub])
  qed
qed

subsection \<open>The whole routine\<close>

lemma applyValidityRules_Inr:
  assumes "applyValidityRules e st = Inr st'"
  obtains s2 where
    "forEachE (applyValidityRulesForCheckbox e) (checkboxNames e) (resetDisabled e st) = Inr s2"
    and "st' = emptyUncheckedPartials e s2"
  using assms
  by (auto simp add: applyValidityRules_def forEachE_fst checkboxNames_def
      enableAll_resetDisabled cleanupPartialUsers_emptyUncheckedPartials split: sum.splits)

lemma applyValidityRules_returns_threePasses:
  assumes "checkboxesBoolean e st" and "applyValidityRules e st = Inr st'"
  shows "st' = threePasses e st"
proof -
  from assms(2) obtain s2 where
    s2: "forEachE (applyValidityRulesForCheckbox e) (checkboxNames e) (resetDisabled e st) = Inr s2"
    and st': "st' = emptyUncheckedPartials e s2"
    by (rule applyValidityRules_Inr)
  from assms(1) have "checkboxesBoolean e (resetDisabled e st)"
    by (rule checkboxesBoolean_resetDisabled)
  with s2 have "s2 = fold (ruleFor e) (checkboxNames e) (resetDisabled e st)"
    by (intro rules_loop) simp_all
  with st' show ?thesis
    by (simp add: threePasses_def)
qed

lemma applyValidityRules_total:
  assumes "urlsResolve e"
  shows "\<exists>st'. applyValidityRules e st = Inr st'"
proof -
  from assms obtain s2 where
    "forEachE (applyValidityRulesForCheckbox e) (checkboxNames e) (enableAll e st) = Inr s2"
    using rules_loop_total [of e "checkboxNames e" "enableAll e st"] by auto
  then show ?thesis
    by (simp add: applyValidityRules_def forEachE_fst checkboxNames_def)
qed

lemma demo_checkboxesBoolean: "checkboxesBoolean demoCollaborators demoState"
  by code_simp

lemma demo_urlsResolve: "urlsResolve demoCollaborators"
  by code_simp

lemma demo_run:
  "applyValidityRules demoCollaborators demoState = Inr (threePasses demoCollaborators demoState)"
  using applyValidityRules_total [OF demo_urlsResolve, of demoState]
    applyValidityRules_returns_threePasses [OF demo_checkboxesBoolean]
  by auto

lemma demo_run_values:
  "map_sum id (\<lambda>s. map (entries s)
      [''submissionsView'', ''submissionsViewDisabled'', ''formView'', ''submissionsViewPartial'',
       ''submissionsViewPartialDisabled'', ''submissionsViewPartialUsers''])
      (applyValidityRules demoCollaborators demoState)
    = Inr [Some (JBool True), Some (JBool True), Some (JBool True), Some (JBool False),
           Some (JBool True), Some (JArr [])]"
  by code_simp

text \<open>
  Claim C1. For every form state (each checkbox of the map either checked or unchecked),
  what \<open>applyValidityRules\<close> returns is the outcome of three passes over
  \<open>CHECKBOX_PERM_PAIRS\<close>, in this order: every checkbox's \<open>Disabled\<close> flag is reset to
  false; then, for each checkbox in map order that is checked when its turn comes, every
  checkbox whose permission is implied by its permission is set checked and disabled, and
  then every checkbox whose permission is contradictory to it is set unchecked and disabled;
  finally the \<open>Users\<close> list of every checkbox whose name ends with \<open>Partial\<close> and which
  is unchecked by then is set to the empty list. The routine returns (rather than throws)
  whenever the permission configuration knows every URL a checkbox's permission lists.
\<close>

theorem applyValidityRules_three_passes:
  "(checkboxesBoolean e st \<and> applyValidityRules e st = Inr st' \<longrightarrow> st' = threePasses e st) \<and>
   (urlsResolve e \<longrightarrow> (\<exists>st''. applyValidityRules e st = Inr st''))"
  using applyValidityRules_returns_threePasses [of e st st'] applyValidityRules_total [of e st]
  by blast

theorem applyValidityRules_three_passes_witness:
  "checkboxesBoolean demoCollaborators demoState \<and>
   urlsResolve demoCollaborators \<and>
   applyValidityRules demoCollaborators demoState = Inr (threePasses demoCollaborators demoState) \<and>
   map (entries (threePasses demoCollaborators demoState))
     [''submissionsView'', ''submissionsViewDisabled'', ''formView'', ''submissionsViewPartial'',
      ''submissionsViewPartialDisabled'', ''submissionsViewPartialUsers'']
   = [Some (JBool True), Some (JBool True), Some (JBool True), Some (JBool False),
      Some (JBool True), Some (JArr [])]"
proof -
  note b = demo_checkboxesBoolean and r = demo_urlsResolve
  from applyValidityRules_three_passes [of demoCollaborators demoState] r
  obtain st'' where run: "applyValidityRules demoCollaborators demoState = Inr st''"
    by blast
  from applyValidityRules_three_passes [of demoCollaborators demoState st''] b run
  have "st'' = threePasses demoCollaborators demoState"
    by blast
  with run have eq:
    "applyValidityRules demoCollaborators demoState = Inr (threePasses demoCollaborators demoState)"
    by simp
  from demo_run_values have vals: "map (entries (threePasses demoCollaborators demoState))
     [''submissionsView'', ''submissionsViewDisabled'', ''formView'', ''submissionsViewPartial'',
      ''submissionsViewPartialDisabled'', ''submissionsViewPartialUsers'']
   = [Some (JBool True), Some (JBool True), Some (JBool True), Some (JBool False),
      Some (JBool True), Some (JArr [])]"
    unfolding eq by (simp only: map_sum.simps sum.inject)
  from b r eq vals show ?thesis
    by (intro conjI)
qed

section \<open>Unchecked partial checkboxes have no users\<close>

lemma partialCheckboxes_names:
  "p \<in> set partialCheckboxes \<Longrightarrow> p \<in> set (checkboxNames e) \<and> endsWith p ''Partial''"
  by (auto simp add: partialCheckboxes_def checkboxNames_eq endsWith_def)

lemma entries_emptyUncheckedPartials_name:
  assumes "c \<in> set (checkboxNames e)"
  shows "entries (emptyUncheckedPartials e s) c = entries s c"
  using Users_not_name [OF assms] by (auto simp add: emptyUncheckedPartials_def)

lemma partialUsersCleared_emptyUncheckedPartials:
  "partialUsersCleared (emptyUncheckedPartials e s)"
  unfolding partialUsersCleared_def list_all_iff
proof (intro ballI impI)
  fix p
  assume p: "p \<in> set partialCheckboxes"
    and unch: "entries (emptyUncheckedPartials e s) p = Some (JBool False)"
  from p have name: "p \<in> set (checkboxNames e)" and partial: "endsWith p ''Partial''"
    using partialCheckboxes_names by blast+
  from unch name have "checkboxUnchecked s p"
    by (simp add: entries_emptyUncheckedPartials_name checkboxUnchecked_def)
  with name partial show "entries (emptyUncheckedPartials e s) (p @ ''Users'') = Some (JArr [])"
    by (auto simp add: emptyUncheckedPartials_def)
qed

lemma partialUsersCleared_applyValidityRules:
  "applyValidityRules e st = Inr st' \<Longrightarrow> partialUsersCleared st'"
  by (erule applyValidityRules_Inr) (simp add: partialUsersCleared_emptyUncheckedPartials)

lemma partialUsersCleared_cong:
  "entries st' = entries st \<Longrightarrow> partialUsersCleared st' = partialUsersCleared st"
  by (simp add: partialUsersCleared_def)

lemma partialUsersCleared_initialState: "partialUsersCleared initialState"
  by (simp add: partialUsersCleared_def partialCheckboxes_def initialState_def)

lemma map_add_same: "m ++ m = m"
  by (simp add: fun_eq_iff map_add_def split: option.splits)

lemma mergeState_self: "mergeState s s = s"
  by (simp add: mergeState_def map_add_same)

lemma onCheckboxChange_eq:
  "onCheckboxChange e ident isChecked st = applyValidityRules e (put ident (JBool isChecked) st)"
  by (simp add: onCheckboxChange_def mergeState_self split: sum.splits)

lemma constructor_cases:
  assumes "constructor e pr = Inr st'"
  shows "(permissions pr = None \<and> entries st' = entries initialState) \<or>
         (\<exists>perms s. permissions pr = Some perms \<and>
            applyValidityRules e (assign initialState (buildFormData e perms)) = Inr s \<and>
            entries st' = entries s)"
  using assms
  by (auto simp add: constructor_def applyPropsData_def split: option.splits sum.splits if_splits)

text \<open>
  Claim C5. In every state that \<open>applyValidityRules\<close> returns, each of the four partial
  checkboxes (\<open>submissionsViewPartial\<close>, \<open>submissionsAddPartial\<close>,
  \<open>submissionsEditPartial\<close>, \<open>submissionsValidatePartial\<close>) that is false has an empty
  list of users; the state the constructor builds (through \<open>applyPropsData\<close>) and the state
  after every checkbox toggle are such states.
\<close>

theorem partial_users_invariant:
  "(applyValidityRules e st = Inr st' \<longrightarrow> partialUsersCleared st') \<and>
   (constructor e pr = Inr st0 \<longrightarrow> partialUsersCleared st0) \<and>
   (onCheckboxChange e ident isChecked st = Inr st1 \<longrightarrow> partialUsersCleared st1)"
proof (intro conjI impI)
  assume "applyValidityRules e st = Inr st'"
  then show "partialUsersCleared st'"
    by (rule partialUsersCleared_applyValidityRules)
next
  assume "constructor e pr = Inr st0"
  then show "partialUsersCleared st0"
    using constructor_cases [of e pr st0] partialUsersCleared_initialState
      partialUsersCleared_applyValidityRules partialUsersCleared_cong
    by metis
next
  assume "onCheckboxChange e ident isChecked st = Inr st1"
  then show "partialUsersCleared st1"
    unfolding onCheckboxChange_eq by (rule partialUsersCleared_applyValidityRules)
qed


lemma demo_toggle:
  "onCheckboxChange demoCollaborators ''submissionsEdit'' True demoState0 =
     Inr (threePasses demoCollaborators demoState)"
  using demo_run by (simp add: onCheckboxChange_eq demoState_def)

lemma demo_constructor: "constructor demoCollaborators demoProps = Inr initialState"
  by (simp add: constructor_def applyPropsData_def demoProps_def)

theorem partial_users_invariant_witness:
  "applyValidityRules demoCollaborators demoState = Inr (threePasses demoCollaborators demoState) \<and>
   constructor demoCollaborators demoProps = Inr initialState \<and>
   onCheckboxChange demoCollaborators ''submissionsEdit'' True demoState0 =
     Inr (threePasses demoCollaborators demoState) \<and>
   partialUsersCleared (threePasses demoCollaborators demoState) \<and>
   partialUsersCleared initialState"
  using partial_users_invariant [of demoCollaborators demoState "threePasses demoCollaborators demoState"
      demoProps initialState "''submissionsEdit''" True "threePasses demoCollaborators demoState"]
    partial_users_invariant [of demoCollaborators demoState0 "threePasses demoCollaborators demoState"
      demoProps initialState "''submissionsEdit''" True "threePasses demoCollaborators demoState"]
    demo_run demo_constructor demo_toggle
  by blast

section \<open>Every checkbox toggle reapplies the rules\<close>

lemma checkboxFor_onChange:
  "box \<in> set (checkboxFor e pr st permCodename hasDisabled name) \<Longrightarrow>
     onChange box = OnCheckboxChange name"
  by (auto simp add: checkboxFor_def split: if_splits)

lemma renderCheckboxes_onChange:
  assumes "box \<in> set (renderCheckboxes e pr st)"
  shows "\<exists>name \<in> set (checkboxNames e). onChange box = OnCheckboxChange name"
proof -
  from assms have "onChange box \<in> OnCheckboxChange ` set (checkboxNames e)"
    unfolding renderCheckboxes_def checkboxNames_eq set_append
    by (elim UnE) (simp_all add: checkboxFor_onChange)
  then show ?thesis by blast
qed

text \<open>
  Claim C2. For every property name and boolean, \<open>onCheckboxChange\<close> stores the boolean
  under that name and makes the outcome of \<open>applyValidityRules\<close> on the updated state the
  state of the component (or throws what the routine throws); and every checkbox that
  \<open>render\<close> draws is bound to \<open>onCheckboxChange\<close> with the name of a checkbox of the
  map, so no toggle goes around the rules.
\<close>

theorem onCheckboxChange_reapplies_rules:
  "onCheckboxChange e ident isChecked st = applyValidityRules e (put ident (JBool isChecked) st) \<and>
   (\<forall>box \<in> set (renderCheckboxes e pr st).
      \<exists>name \<in> set (checkboxNames e).
        onChange box = OnCheckboxChange name \<and>
        fire e (onChange box) isChecked st = applyValidityRules e (put name (JBool isChecked) st))"
proof
  show "onCheckboxChange e ident isChecked st = applyValidityRules e (put ident (JBool isChecked) st)"
    by (rule onCheckboxChange_eq)
  show "\<forall>box \<in> set (renderCheckboxes e pr st).
      \<exists>name \<in> set (checkboxNames e).
        onChange box = OnCheckboxChange name \<and>
        fire e (onChange box) isChecked st = applyValidityRules e (put name (JBool isChecked) st)"
  proof
    fix box
    assume "box \<in> set (renderCheckboxes e pr st)"
    then obtain name where "name \<in> set (checkboxNames e)" and "onChange box = OnCheckboxChange name"
      using renderCheckboxes_onChange by blast
    then show "\<exists>name \<in> set (checkboxNames e).
        onChange box = OnCheckboxChange name \<and>
        fire e (onChange box) isChecked st = applyValidityRules e (put name (JBool isChecked) st)"
      by (auto simp add: fire_def onCheckboxChange_eq)
  qed
qed

lemma demo_render:
  "map onChange (renderCheckboxes demoCollaborators demoProps demoState0) =
     map OnCheckboxChange
       [''formView'', ''formEdit'', ''submissionsView'', ''submissionsViewPartial'',
        ''submissionsAdd'', ''submissionsAddPartial'', ''submissionsEdit'',
        ''submissionsEditPartial'', ''submissionsValidate'', ''submissionsValidatePartial'']"
  by code_simp

theorem onCheckboxChange_reapplies_rules_witness:
  "onCheckboxChange demoCollaborators ''submissionsEdit'' True demoState0 =
     Inr (threePasses demoCollaborators demoState) \<and>
   length (renderCheckboxes demoCollaborators demoProps demoState0) = 10 \<and>
   list_all (\<lambda>box. \<exists>name \<in> set (checkboxNames demoCollaborators).
        onChange box = OnCheckboxChange name \<and>
        fire demoCollaborators (onChange box) True demoState0 =
          applyValidityRules demoCollaborators (put name (JBool True) demoState0))
     (renderCheckboxes demoCollaborators demoProps demoState0)"
proof -
  note inst = onCheckboxChange_reapplies_rules
    [of demoCollaborators "''submissionsEdit''" True demoState0 demoProps]
  have len: "length (renderCheckboxes demoCollaborators demoProps demoState0) = 10"
    using arg_cong [OF demo_render, of length] by simp
  from inst [THEN conjunct1] have "onCheckboxChange demoCollaborators ''submissionsEdit'' True demoState0 =
      applyValidityRules demoCollaborators demoState"
    by (simp only: demoState_def)
  then have run: "onCheckboxChange demoCollaborators ''submissionsEdit'' True demoState0 =
      Inr (threePasses demoCollaborators demoState)"
    by (simp only: demo_run)
  from inst [THEN conjunct2] have all: "list_all (\<lambda>box. \<exists>name \<in> set (checkboxNames demoCollaborators).
        onChange box = OnCheckboxChange name \<and>
        fire demoCollaborators (onChange box) True demoState0 =
          applyValidityRules demoCollaborators (put name (JBool True) demoState0))
     (renderCheckboxes demoCollaborators demoProps demoState0)"
    by (simp only: list_all_iff)
  from run len all show ?thesis
    by (intro conjI)
qed

section \<open>The end of a bulk submission\<close>







section \<open>The shape of the state is kept\<close>

text \<open>
  The two conditions under which the rule routine and \<open>isSubmitEnabled\<close> are described
  (the checkboxes hold booleans, the lists of partial users are arrays) hold of the state
  the constructor starts from, and the rule routine and every checkbox toggle keep them.
\<close>

lemma Disabled_not_Users: "c @ ''Disabled'' \<noteq> p @ ''Users''"
proof
  assume "c @ ''Disabled'' = p @ ''Users''"
  then have "last (c @ ''Disabled'') = last (p @ ''Users'')" by simp
  then show False by simp
qed

lemma arrays_put_bool:
  assumes "partialUsersAreArrays s" and "\<And>p. p \<in> set partialCheckboxes \<Longrightarrow> k \<noteq> p @ ''Users''"
  shows "partialUsersAreArrays (put k (JBool b) s)"
  using assms by (auto simp add: partialUsersAreArrays_def list_all_iff entries_put)

lemma arrays_setAndDisable:
  assumes "partialUsersAreArrays s" and "d \<in> set (checkboxNames e)"
  shows "partialUsersAreArrays (setAndDisable v d s)"
  unfolding setAndDisable_def
  using assms Users_not_name [of d e] Disabled_not_Users
  by (intro arrays_put_bool) metis+

lemma fold_invariant:
  assumes "P s" and "\<And>x s. x \<in> set xs \<Longrightarrow> P s \<Longrightarrow> P (f x s)"
  shows "P (fold f xs s)"
  using assms by (induction xs arbitrary: s) simp_all

lemma forEachE_invariant:
  assumes "forEachE f xs s = Inr s'" and "P s"
    and "\<And>x s s'. x \<in> set xs \<Longrightarrow> P s \<Longrightarrow> f x s = Inr s' \<Longrightarrow> P s'"
  shows "P s'"
  using assms
proof (induction xs arbitrary: s)
  case Nil
  then show ?case by simp
next
  case (Cons x xs)
  from Cons.prems(1) obtain s1 where s1: "f x s = Inr s1" and rest: "forEachE f xs s1 = Inr s'"
    by (auto split: sum.splits)
  from s1 Cons.prems(2) have "P s1"
    using Cons.prems(3) [of x s s1] by simp
  with rest show ?case
    using Cons.prems(3) by (intro Cons.IH [of s1]) auto
qed

lemma arrays_forPermUrl:
  assumes "forPermUrl e v u s = Inr s'" and "partialUsersAreArrays s"
  shows "partialUsersAreArrays s'"
proof -
  from assms(1) obtain pd where "getPermission e u = Some pd"
    and s': "s' = fold (setAndDisable v) (getPermissionCheckboxPairs e (codename pd)) s"
    by (cases "getPermission e u") (simp_all add: forPermUrl_None forPermUrl_Some)
  show ?thesis
    unfolding s' using assms(2)
  proof (rule fold_invariant)
    fix d s
    assume "d \<in> set (getPermissionCheckboxPairs e (codename pd))" and "partialUsersAreArrays s"
    then show "partialUsersAreArrays (setAndDisable v d s)"
      using getPermissionCheckboxPairs_names by (intro arrays_setAndDisable) auto
  qed
qed

lemma arrays_applyValidityRulesForCheckbox:
  assumes "applyValidityRulesForCheckbox e c s = Inr s'" and "partialUsersAreArrays s"
  shows "partialUsersAreArrays s'"
proof (cases "entries s c = Some (JBool False)")
  case True
  with assms show ?thesis by (simp add: applyValidityRulesForCheckbox_def)
next
  case False
  let ?imp = "getImpliedPermissions e (getCheckboxPermissionPair e c)"
  let ?con = "getContradictoryPermissions e (getCheckboxPermissionPair e c)"
  from assms(1) False obtain s1 where
    s1: "forEachE (forPermUrl e True) ?imp s = Inr s1" and
    s': "forEachE (forPermUrl e False) ?con s1 = Inr s'"
    by (auto simp add: applyValidityRulesForCheckbox_def Let_def split: sum.splits)
  from s1 assms(2) have "partialUsersAreArrays s1"
    by (rule forEachE_invariant) (rule arrays_forPermUrl)
  with s' show ?thesis
    by (rule forEachE_invariant) (rule arrays_forPermUrl)
qed

lemma arrays_resetDisabled: "partialUsersAreArrays s \<Longrightarrow> partialUsersAreArrays (resetDisabled e s)"
  using Disabled_not_Users
  by (auto simp add: partialUsersAreArrays_def list_all_iff resetDisabled_def)

lemma arrays_emptyUncheckedPartials:
  "partialUsersAreArrays s \<Longrightarrow> partialUsersAreArrays (emptyUncheckedPartials e s)"
  by (auto simp add: partialUsersAreArrays_def list_all_iff emptyUncheckedPartials_def isArr_def)

lemma arrays_applyValidityRules:
  assumes "applyValidityRules e st = Inr st'" and "partialUsersAreArrays st"
  shows "partialUsersAreArrays st'"
proof -
  from assms(1) obtain s2 where
    s2: "forEachE (applyValidityRulesForCheckbox e) (checkboxNames e) (resetDisabled e st) = Inr s2"
    and st': "st' = emptyUncheckedPartials e s2"
    by (rule applyValidityRules_Inr)
  from assms(2) have "partialUsersAreArrays (resetDisabled e st)"
    by (rule arrays_resetDisabled)
  with s2 have "partialUsersAreArrays s2"
    by (rule forEachE_invariant) (rule arrays_applyValidityRulesForCheckbox)
  then show ?thesis
    unfolding st' by (rule arrays_emptyUncheckedPartials)
qed

lemma arrays_initialState: "partialUsersAreArrays initialState"
  by (simp add: partialUsersAreArrays_def partialCheckboxes_def initialState_def isArr_def)

lemma arrays_onCheckboxChange:
  assumes "onCheckboxChange e ident isChecked st = Inr st'" and "partialUsersAreArrays st"
    and "ident \<in> set (checkboxNames e)"
  shows "partialUsersAreArrays st'"
proof -
  from assms(2,3) have "partialUsersAreArrays (put ident (JBool isChecked) st)"
    using Users_not_name [of ident e] by (intro arrays_put_bool) metis+
  with assms(1) show ?thesis
    unfolding onCheckboxChange_eq by (rule arrays_applyValidityRules)
qed

lemma checkboxesBoolean_emptyUncheckedPartials:
  "checkboxesBoolean e s \<Longrightarrow> checkboxesBoolean e (emptyUncheckedPartials e s)"
  by (simp add: checkboxesBoolean_def list_all_iff entries_emptyUncheckedPartials_name)

lemma checkboxesBoolean_fold_ruleFor:
  "checkboxesBoolean e s \<Longrightarrow> checkboxesBoolean e (fold (ruleFor e) cs s)"
  by (rule fold_invariant) (simp_all add: checkboxesBoolean_ruleFor)

lemma checkboxesBoolean_applyValidityRules:
  assumes "applyValidityRules e st = Inr st'" and "checkboxesBoolean e st"
  shows "checkboxesBoolean e st'"
proof -
  from assms have "st' = threePasses e st"
    by (intro applyValidityRules_returns_threePasses)
  with assms(2) show ?thesis
    by (simp add: threePasses_def checkboxesBoolean_emptyUncheckedPartials
        checkboxesBoolean_fold_ruleFor checkboxesBoolean_resetDisabled)
qed

lemma checkboxesBoolean_initialState: "checkboxesBoolean e initialState"
  by (simp add: checkboxesBoolean_def checkboxNames_eq initialState_def isBool_def)

lemma checkboxesBoolean_put:
  "checkboxesBoolean e s \<Longrightarrow> checkboxesBoolean e (put k (JBool b) s)"
  by (simp add: checkboxesBoolean_def list_all_iff entries_put isBool_def)

lemma checkboxesBoolean_onCheckboxChange:
  assumes "onCheckboxChange e ident isChecked st = Inr st'" and "checkboxesBoolean e st"
  shows "checkboxesBoolean e st'"
proof -
  from assms(2) have "checkboxesBoolean e (put ident (JBool isChecked) st)"
    by (rule checkboxesBoolean_put)
  with assms(1) show ?thesis
    unfolding onCheckboxChange_eq by (rule checkboxesBoolean_applyValidityRules)
qed

text \<open>
  When \<open>PERMISSIONS_CODENAMES\<close> sends a codename to itself, as the component assumes by
  looking a codename up twice, the permissions implied by a codename are those its own
  definition lists.
\<close>

lemma getImpliedPermissions_codename:
  assumes "PERMISSIONS_CODENAMES e k = Some k"
  shows "getImpliedPermissions e (Some k) =
           (case getPermissionByCodename e (Some k) of Some permDef \<Rightarrow> implied permDef | None \<Rightarrow> [])"
  using assms by (simp add: getImpliedPermissions_def)

section \<open>The anonymous user cannot be submitted\<close>

lemma and_also_True: "and_also a b = Inr True \<longleftrightarrow> a = Inr True \<and> b = Inr True"
  by (cases a) (auto simp add: and_also_def)

lemma isPartialValid_returns:
  assumes "partialUsersAreArrays st" and "p \<in> set partialCheckboxes"
  shows "\<exists>b. isPartialValid st p = Inr b"
proof -
  from assms have "isArr (entries st (p @ ''Users''))"
    by (simp add: partialUsersAreArrays_def list_all_iff)
  then show ?thesis
    by (auto simp add: isPartialValid_def isArr_def split: option.splits jsval.splits)
qed

lemma isSubmitEnabled_True:
  assumes "isSubmitEnabled e st = Inr True"
  shows "\<not> isSubmitPending st \<and> \<not> isEditingUsername st \<and> username st \<noteq> [] \<and>
         usernamesBeingChecked st = [] \<and> username st \<noteq> ANON_USERNAME e"
  using assms by (auto simp add: isSubmitEnabled_def Let_def and_also_True)

lemma isSubmitEnabled_anonymous:
  assumes "username st = ANON_USERNAME e" and "partialUsersAreArrays st"
  shows "isSubmitEnabled e st = Inr False"
proof -
  note r = isPartialValid_returns [OF assms(2)]
  obtain b1 where b1: "isPartialValid st ''submissionsViewPartial'' = Inr b1"
    using r [of "''submissionsViewPartial''"] by (auto simp add: partialCheckboxes_def)
  obtain b2 where b2: "isPartialValid st ''submissionsAddPartial'' = Inr b2"
    using r [of "''submissionsAddPartial''"] by (auto simp add: partialCheckboxes_def)
  obtain b3 where b3: "isPartialValid st ''submissionsEditPartial'' = Inr b3"
    using r [of "''submissionsEditPartial''"] by (auto simp add: partialCheckboxes_def)
  obtain b4 where b4: "isPartialValid st ''submissionsValidatePartial'' = Inr b4"
    using r [of "''submissionsValidatePartial''"] by (auto simp add: partialCheckboxes_def)
  from assms(1) b1 b2 b3 b4 show ?thesis
    by (simp add: isSubmitEnabled_def Let_def and_also_def)
qed

text \<open>
  Claim C6. In every state of the component whose username is \<open>ANON_USERNAME\<close>,
  \<open>isSubmitEnabled\<close> returns false and \<open>submit\<close> returns without changing the state
  and without calling \<open>bulkSetAssetPermissions\<close> (it only prevents the default action of
  the event). A state of the component has arrays for the four lists of partial users; in
  any other state \<open>isSubmitEnabled\<close> still never returns true, and a \<open>submit\<close> that
  returns has done nothing else either.
\<close>

theorem anonymous_never_submitted:
  assumes "username st = ANON_USERNAME e"
  shows "(partialUsersAreArrays st \<longrightarrow>
            isSubmitEnabled e st = Inr False \<and> submit e pr st = Inr (st, [PreventDefault])) \<and>
         isSubmitEnabled e st \<noteq> Inr True \<and>
         (\<forall>st' effects. submit e pr st = Inr (st', effects) \<longrightarrow> st' = st \<and> effects = [PreventDefault])"
proof (intro conjI impI allI)
  assume "partialUsersAreArrays st"
  with assms show "isSubmitEnabled e st = Inr False"
    by (rule isSubmitEnabled_anonymous)
  then show "submit e pr st = Inr (st, [PreventDefault])"
    by (simp add: submit_def)
next
  show no: "isSubmitEnabled e st \<noteq> Inr True"
    using assms isSubmitEnabled_True by blast
  fix st' effects
  assume "submit e pr st = Inr (st', effects)"
  with no show "st' = st" and "effects = [PreventDefault]"
    by (auto simp add: submit_def split: sum.splits if_splits)
qed

lemma anon_arrays: "partialUsersAreArrays anonState"
  by code_simp

theorem anonymous_never_submitted_witness:
  "username anonState = ANON_USERNAME demoCollaborators \<and>
   partialUsersAreArrays anonState \<and>
   isSubmitEnabled demoCollaborators anonState = Inr False \<and>
   submit demoCollaborators demoProps anonState = Inr (anonState, [PreventDefault])"
proof -
  have u: "username anonState = ANON_USERNAME demoCollaborators"
    by (simp add: anonState_def demoCollaborators_def put_def)
  from anonymous_never_submitted [OF u, of demoProps] anon_arrays u show ?thesis
    by blast
qed

section \<open>What submit sends\<close>

lemma submit_enabled_nonempty:
  assumes "isSubmitEnabled e st = Inr True" and "parseFormData e (getFormData e pr st) \<noteq> []"
  shows "submit e pr st =
           Inr (st\<lparr>isSubmitPending := True\<rparr>,
                [PreventDefault,
                 BulkSetAssetPermissions (uid pr)
                   (filter (\<lambda>perm. user perm \<noteq> buildUserUrl e (username st)) (nonOwnerPerms pr)
                    @ parseFormData e (getFormData e pr st))])"
proof -
  have "fd_username (getFormData e pr st) = username st"
    by (simp add: getFormData_def)
  with assms show ?thesis
    by (simp add: submit_def Let_def)
qed

lemma submit_enabled_empty:
  assumes "isSubmitEnabled e st = Inr True" and "parseFormData e (getFormData e pr st) = []"
  shows "submit e pr st =
           Inr (st, PreventDefault #
                    (case onSubmitEnd pr of Some f \<Rightarrow> [Invoke f True] | None \<Rightarrow> []))"
proof -
  from assms(1) have "\<not> isSubmitPending st"
    using isSubmitEnabled_True by blast
  with assms show ?thesis
    by (simp add: submit_def Let_def notifyParentAboutSubmitEnd_def)
qed

text \<open>
  Claim C3, as amended. When \<open>isSubmitEnabled\<close> is true and \<open>permParser.parseFormData\<close>
  of the form data is a non-empty list, \<open>submit\<close> sets \<open>isSubmitPending\<close> and calls
  \<open>bulkSetAssetPermissions\<close> with the asset uid and the entries of \<open>nonOwnerPerms\<close> whose
  user differs from the user URL of the edited username, followed by the parsed
  permissions. When the parsed list is empty, no action is dispatched, and the parent's
  \<open>onSubmitEnd\<close> is called with true when it is a function; when it is not, nothing is
  called.
\<close>

theorem submit_when_enabled:
  assumes "isSubmitEnabled e st = Inr True"
  shows "(parseFormData e (getFormData e pr st) \<noteq> [] \<longrightarrow>
            submit e pr st =
              Inr (st\<lparr>isSubmitPending := True\<rparr>,
                   [PreventDefault,
                    BulkSetAssetPermissions (uid pr)
                      (filter (\<lambda>perm. user perm \<noteq> buildUserUrl e (username st)) (nonOwnerPerms pr)
                       @ parseFormData e (getFormData e pr st))])) \<and>
         (parseFormData e (getFormData e pr st) = [] \<longrightarrow>
            submit e pr st =
              Inr (st, PreventDefault #
                       (case onSubmitEnd pr of Some f \<Rightarrow> [Invoke f True] | None \<Rightarrow> [])))"
  using submit_enabled_nonempty [OF assms] submit_enabled_empty [OF assms] by blast

lemma grant_enabled: "isSubmitEnabled demoCollaborators grantState = Inr True"
  by code_simp

lemma grant_parsed:
  "parseFormData demoCollaborators (getFormData demoCollaborators demoProps grantState) =
     [\<lparr>user = ''/users/bob/'', permission = ''/p/view_asset/''\<rparr>]"
  by code_simp

lemma grant_others:
  "filter (\<lambda>perm. user perm \<noteq> buildUserUrl demoCollaborators (username grantState))
     (nonOwnerPerms demoProps) = [\<lparr>user = ''/users/eve/'', permission = ''/p/change_asset/''\<rparr>]"
  by code_simp

lemma noChange_enabled: "isSubmitEnabled demoCollaborators noChangeState = Inr True"
  by code_simp

lemma noChange_parsed:
  "parseFormData demoCollaborators (getFormData demoCollaborators pr noChangeState) = []"
  by (simp add: demoCollaborators_def getFormData_def copyWhen_def noChangeState_def put_def
      initialState_def)

theorem submit_when_enabled_witness:
  "isSubmitEnabled demoCollaborators grantState = Inr True \<and>
   submit demoCollaborators demoProps grantState =
     Inr (grantState\<lparr>isSubmitPending := True\<rparr>,
          [PreventDefault,
           BulkSetAssetPermissions ''aSurvey1''
             [\<lparr>user = ''/users/eve/'', permission = ''/p/change_asset/''\<rparr>,
              \<lparr>user = ''/users/bob/'', permission = ''/p/view_asset/''\<rparr>]]) \<and>
   isSubmitEnabled demoCollaborators noChangeState = Inr True \<and>
   submit demoCollaborators demoProps noChangeState =
     Inr (noChangeState, [PreventDefault, Invoke ''onPermissionsEditorSubmitEnd'' True])"
proof -
  have uid: "uid demoProps = ''aSurvey1''"
    and cb: "onSubmitEnd demoProps = Some ''onPermissionsEditorSubmitEnd''"
    by (simp_all add: demoProps_def)
  from submit_when_enabled [OF grant_enabled, of demoProps]
  have a: "submit demoCollaborators demoProps grantState =
     Inr (grantState\<lparr>isSubmitPending := True\<rparr>,
          [PreventDefault,
           BulkSetAssetPermissions ''aSurvey1''
             [\<lparr>user = ''/users/eve/'', permission = ''/p/change_asset/''\<rparr>,
              \<lparr>user = ''/users/bob/'', permission = ''/p/view_asset/''\<rparr>]])"
    unfolding grant_parsed grant_others uid by simp
  from submit_when_enabled [OF noChange_enabled, of demoProps]
  have b: "submit demoCollaborators demoProps noChangeState =
     Inr (noChangeState, [PreventDefault, Invoke ''onPermissionsEditorSubmitEnd'' True])"
    unfolding noChange_parsed cb by simp
  from grant_enabled a noChange_enabled b show ?thesis
    by (intro conjI)
qed

text \<open>
  The claim as first stated has \<open>onSubmitEnd\<close> called whenever the parsed list is empty.
  With no \<open>onSubmitEnd\<close> among the properties, an enabled form whose parsed list is empty
  is submitted without any call.
\<close>

theorem submit_without_callback_counterexample:
  "isSubmitEnabled demoCollaborators noChangeState = Inr True \<and>
   parseFormData demoCollaborators (getFormData demoCollaborators propsWithoutCallback noChangeState) = [] \<and>
   onSubmitEnd propsWithoutCallback = None \<and>
   submit demoCollaborators propsWithoutCallback noChangeState = Inr (noChangeState, [PreventDefault])"
proof -
  have none: "onSubmitEnd propsWithoutCallback = None"
    by (simp add: propsWithoutCallback_def)
  from submit_enabled_empty [OF noChange_enabled noChange_parsed, of propsWithoutCallback]
  have "submit demoCollaborators propsWithoutCallback noChangeState = Inr (noChangeState, [PreventDefault])"
    unfolding none by simp
  with noChange_enabled noChange_parsed none show ?thesis
    by (intro conjI)
qed

section \<open>The end of username editing\<close>

text \<open>
  Claim C7, as amended. When username editing ends with a non-empty username: if the
  synchronous check answers false, the username is cleared to the empty string and, when
  the browser is online, the unknown user is notified; if it answers \<open>undefined\<close>, the
  username is added to \<open>usernamesBeingChecked\<close> and the asynchronous check is
  dispatched; if it answers true, the username is left as it is.
\<close>

theorem username_change_end:
  assumes "username st \<noteq> []"
  shows "(checkUsername e (username st) = Some False \<longrightarrow>
            onUsernameChangeEnd e st =
              (st\<lparr>isEditingUsername := False, username := []\<rparr>,
               if onLine e
               then [Notify (t_fn e ''User not found:'' @ '' '' @ username st) ''warning'']
               else [])) \<and>
         (checkUsername e (username st) = None \<longrightarrow>
            onUsernameChangeEnd e st =
              (st\<lparr>isEditingUsername := False,
                  usernamesBeingChecked :=
                    (if username st \<in> set (usernamesBeingChecked st) then usernamesBeingChecked st
                     else usernamesBeingChecked st @ [username st])\<rparr>,
               [CheckUsernameAction (username st)])) \<and>
         (checkUsername e (username st) = Some True \<longrightarrow>
            onUsernameChangeEnd e st = (st\<lparr>isEditingUsername := False\<rparr>, []))"
  using assms
  by (simp add: onUsernameChangeEnd_def Let_def checkUsernameSync_def checkUsernameAsync_def
      notifyUnknownUser_def)

theorem username_change_end_witness:
  "onUsernameChangeEnd demoCollaborators (typed ''nobody'') =
     ((typed ''nobody'')\<lparr>isEditingUsername := False, username := []\<rparr>,
      [Notify ''User not found: nobody'' ''warning'']) \<and>
   onUsernameChangeEnd demoCollaborators (typed ''zed'') =
     ((typed ''zed'')\<lparr>isEditingUsername := False, usernamesBeingChecked := [''zed'']\<rparr>,
      [CheckUsernameAction ''zed'']) \<and>
   onUsernameChangeEnd demoCollaborators (typed ''bob'') =
     ((typed ''bob'')\<lparr>isEditingUsername := False\<rparr>, [])"
proof -
  have u: "\<And>u. username (typed u) = u" and c: "\<And>u. usernamesBeingChecked (typed u) = []"
    by (simp_all add: typed_def onUsernameChange_def initialState_def)
  have e: "onLine demoCollaborators" "t_fn demoCollaborators = (\<lambda>s. s)"
    "checkUsername demoCollaborators ''nobody'' = Some False"
    "checkUsername demoCollaborators ''zed'' = None"
    "checkUsername demoCollaborators ''bob'' = Some True"
    by (simp_all add: demoCollaborators_def)
  show ?thesis
    using username_change_end [of "typed ''nobody''" demoCollaborators]
      username_change_end [of "typed ''zed''" demoCollaborators]
      username_change_end [of "typed ''bob''" demoCollaborators]
    by (simp add: u c e)
qed

text \<open>
  The claim as first stated has the notification in every case. Offline, the username
  is cleared and nothing is notified.
\<close>

theorem offline_no_notification_counterexample:
  "username (typed ''nobody'') = ''nobody'' \<and>
   checkUsername offlineCollaborators ''nobody'' = Some False \<and>
   onUsernameChangeEnd offlineCollaborators (typed ''nobody'') =
     ((typed ''nobody'')\<lparr>isEditingUsername := False, username := []\<rparr>, [])"
  by (simp add: typed_def onUsernameChange_def onUsernameChangeEnd_def Let_def
      checkUsernameSync_def notifyUnknownUser_def offlineCollaborators_def demoCollaborators_def)

section \<open>The five tabs of the form data view\<close>

subsection \<open>The search finds the first occurrence\<close>

lemma splitAtFirst_Some:
  "splitAtFirst searchValue s = Some (before, after) \<Longrightarrow> s = before @ searchValue @ after"
proof (induction s arbitrary: before)
  case Nil
  then show ?case by (simp split: if_splits)
next
  case (Cons c cs)
  show ?case
  proof (cases "take (length searchValue) (c # cs) = searchValue")
    case True
    with Cons.prems have "before = []" and "after = drop (length searchValue) (c # cs)"
      by simp_all
    with True show ?thesis
      by (metis append_Nil append_take_drop_id)
  next
    case False
    with Cons.prems obtain b' where "splitAtFirst searchValue cs = Some (b', after)" and "before = c # b'"
      by (auto split: option.splits)
    with Cons.IH show ?thesis by simp
  qed
qed

lemma occurrence_at_head:
  "c # cs = [] @ searchValue @ a \<Longrightarrow> take (length searchValue) (c # cs) = searchValue"
  by (metis append_Nil append_eq_conv_conj)

lemma splitAtFirst_least:
  "splitAtFirst searchValue s = Some (before, after) \<Longrightarrow> s = b @ searchValue @ a \<Longrightarrow>
     length before \<le> length b"
proof (induction s arbitrary: before b)
  case Nil
  then show ?case by (simp split: if_splits)
next
  case (Cons c cs)
  show ?case
  proof (cases "take (length searchValue) (c # cs) = searchValue")
    case True
    with Cons.prems(1) show ?thesis by simp
  next
    case False
    with Cons.prems(1) obtain b' where
      rest: "splitAtFirst searchValue cs = Some (b', after)" and before: "before = c # b'"
      by (auto split: option.splits)
    from False Cons.prems(2) have "b \<noteq> []"
      using occurrence_at_head by fastforce
    with Cons.prems(2) obtain b2 where b: "b = c # b2" and "cs = b2 @ searchValue @ a"
      by (cases b) auto
    with rest have "length b' \<le> length b2"
      by (intro Cons.IH)
    with before b show ?thesis by simp
  qed
qed

lemma splitAtFirst_None:
  "splitAtFirst searchValue s = None \<Longrightarrow> s \<noteq> b @ searchValue @ a"
proof (induction s arbitrary: b)
  case Nil
  then show ?case by (auto split: if_splits)
next
  case (Cons c cs)
  from Cons.prems have nohead: "take (length searchValue) (c # cs) \<noteq> searchValue"
    and rest: "splitAtFirst searchValue cs = None"
    by (auto split: if_splits option.splits)
  show ?case
  proof
    assume occ: "c # cs = b @ searchValue @ a"
    with nohead have "b \<noteq> []"
      using occurrence_at_head by fastforce
    with occ obtain b2 where "cs = b2 @ searchValue @ a"
      by (cases b) auto
    with Cons.IH [OF rest] show False by blast
  qed
qed

lemma splitAtFirst_firstOccurrence:
  "splitAtFirst searchValue s = Some (before, after) \<longleftrightarrow> firstOccurrence searchValue s before after"
proof
  assume "splitAtFirst searchValue s = Some (before, after)"
  then show "firstOccurrence searchValue s before after"
    unfolding firstOccurrence_def using splitAtFirst_Some splitAtFirst_least by blast
next
  assume fo: "firstOccurrence searchValue s before after"
  then have occ: "s = before @ searchValue @ after"
    by (simp add: firstOccurrence_def)
  then obtain b0 a0 where found: "splitAtFirst searchValue s = Some (b0, a0)"
    using splitAtFirst_None [of searchValue s before after] by (cases "splitAtFirst searchValue s") auto
  then have occ0: "s = b0 @ searchValue @ a0"
    by (rule splitAtFirst_Some)
  from found occ have "length b0 \<le> length before"
    by (rule splitAtFirst_least)
  moreover from fo occ0 have "length before \<le> length b0"
    unfolding firstOccurrence_def by blast
  ultimately have "length b0 = length before" by simp
  with occ occ0 have "b0 = before" and "a0 = after"
    by (metis append_eq_append_conv same_append_eq)+
  with found show "splitAtFirst searchValue s = Some (before, after)" by simp
qed

subsection \<open>A replacement without patterns is put in as it is\<close>

lemma getSubstitution_plain:
  "\<not> hasReplacementPattern replaceValue \<Longrightarrow>
     getSubstitution matched before after replaceValue = replaceValue"
  by (induction matched before after replaceValue rule: getSubstitution.induct) auto

lemma no_dollar_no_pattern: "CHR ''$'' \<notin> set s \<Longrightarrow> \<not> hasReplacementPattern s"
  by (induction s rule: hasReplacementPattern.induct) auto

lemma replace_substituted:
  assumes "\<not> hasReplacementPattern assetUid"
  shows "substituted route assetUid (replace route '':uid'' assetUid)"
proof (cases "splitAtFirst '':uid'' route")
  case None
  then have "\<forall>b a. route \<noteq> b @ '':uid'' @ a"
    using splitAtFirst_None by blast
  moreover from None have "replace route '':uid'' assetUid = route"
    by (simp add: replace_def)
  ultimately show ?thesis
    by (auto simp add: substituted_def firstOccurrence_def)
next
  case (Some found)
  obtain b0 a0 where found: "found = (b0, a0)" by (cases found)
  with Some have split: "splitAtFirst '':uid'' route = Some (b0, a0)" by simp
  with assms have path: "replace route '':uid'' assetUid = b0 @ assetUid @ a0"
    by (simp add: replace_def getSubstitution_plain)
  have "before = b0 \<and> after = a0" if "firstOccurrence '':uid'' route before after" for before after
    using that split by (simp flip: splitAtFirst_firstOccurrence)
  moreover from split have "route = b0 @ '':uid'' @ a0"
    by (rule splitAtFirst_Some)
  ultimately show ?thesis
    unfolding substituted_def path by blast
qed

lemma substituted_path:
  assumes "substituted route assetUid p" and "splitAtFirst '':uid'' route = Some (before, after)"
  shows "p = before @ assetUid @ after"
  using assms by (simp add: substituted_def splitAtFirst_firstOccurrence)

text \<open>
  Claim C8, as amended. For every asset uid and boolean \<open>hasPartialView\<close>,
  \<open>getFormDataTabs\<close> returns exactly five tabs, labelled Table, Reports, Gallery,
  Downloads and Map in this order, and only the Gallery tab has an \<open>isDisabled\<close>
  property, whose value is \<open>hasPartialView\<close>. For every uid without a replacement
  pattern (no dollar sign followed by a dollar sign, an ampersand, a backtick or an
  apostrophe), the path of each tab is its route with the uid in the place of the first
  \<open>:uid\<close>, and the route itself when it has no \<open>:uid\<close>.
\<close>

theorem getFormDataTabs_five_tabs:
  "length (getFormDataTabs t ROUTES assetUid hasPartialView) = 5 \<and>
   map label (getFormDataTabs t ROUTES assetUid hasPartialView) =
     [t ''Table'', t ''Reports'', t ''Gallery'', t ''Downloads'', t ''Map''] \<and>
   map isDisabled (getFormDataTabs t ROUTES assetUid hasPartialView) =
     [None, None, Some hasPartialView, None, None] \<and>
   (\<not> hasReplacementPattern assetUid \<longrightarrow>
      list_all2 (\<lambda>route tab. substituted (route ROUTES) assetUid (path tab))
        [FORM_TABLE, FORM_REPORT, FORM_GALLERY, FORM_DOWNLOADS, FORM_MAP]
        (getFormDataTabs t ROUTES assetUid hasPartialView))"
  by (simp add: getFormDataTabs_def replace_substituted)


lemma demo_splits:
  "splitAtFirst '':uid'' (FORM_TABLE demoRoutes) = Some (''/forms/'', ''/data/table'')"
  "splitAtFirst '':uid'' (FORM_REPORT demoRoutes) = Some (''/forms/'', ''/data/report'')"
  "splitAtFirst '':uid'' (FORM_GALLERY demoRoutes) = Some (''/forms/'', ''/data/gallery'')"
  "splitAtFirst '':uid'' (FORM_DOWNLOADS demoRoutes) = Some (''/forms/'', ''/data/downloads'')"
  "splitAtFirst '':uid'' (FORM_MAP demoRoutes) = Some (''/forms/'', ''/data/map'')"
  by code_simp+

theorem getFormDataTabs_five_tabs_witness:
  "\<not> hasReplacementPattern ''aSurvey1'' \<and>
   map path (getFormDataTabs (\<lambda>s. s) demoRoutes ''aSurvey1'' True) =
     [''/forms/aSurvey1/data/table'', ''/forms/aSurvey1/data/report'',
      ''/forms/aSurvey1/data/gallery'', ''/forms/aSurvey1/data/downloads'',
      ''/forms/aSurvey1/data/map''] \<and>
   map label (getFormDataTabs (\<lambda>s. s) demoRoutes ''aSurvey1'' True) =
     [''Table'', ''Reports'', ''Gallery'', ''Downloads'', ''Map''] \<and>
   map isDisabled (getFormDataTabs (\<lambda>s. s) demoRoutes ''aSurvey1'' True) =
     [None, None, Some True, None, None]"
proof -
  have plain: "\<not> hasReplacementPattern ''aSurvey1''"
    by simp
  note inst = getFormDataTabs_five_tabs [of "\<lambda>s. s" demoRoutes "''aSurvey1''" True]
  from inst plain
  have "list_all2 (\<lambda>route tab. substituted (route demoRoutes) ''aSurvey1'' (path tab))
        [FORM_TABLE, FORM_REPORT, FORM_GALLERY, FORM_DOWNLOADS, FORM_MAP]
        (getFormDataTabs (\<lambda>s. s) demoRoutes ''aSurvey1'' True)"
    by blast
  then have subs:
    "substituted (FORM_TABLE demoRoutes) ''aSurvey1'' (replace (FORM_TABLE demoRoutes) '':uid'' ''aSurvey1'')"
    "substituted (FORM_REPORT demoRoutes) ''aSurvey1'' (replace (FORM_REPORT demoRoutes) '':uid'' ''aSurvey1'')"
    "substituted (FORM_GALLERY demoRoutes) ''aSurvey1'' (replace (FORM_GALLERY demoRoutes) '':uid'' ''aSurvey1'')"
    "substituted (FORM_DOWNLOADS demoRoutes) ''aSurvey1'' (replace (FORM_DOWNLOADS demoRoutes) '':uid'' ''aSurvey1'')"
    "substituted (FORM_MAP demoRoutes) ''aSurvey1'' (replace (FORM_MAP demoRoutes) '':uid'' ''aSurvey1'')"
    by (simp_all add: getFormDataTabs_def)
  have paths:
    "replace (FORM_TABLE demoRoutes) '':uid'' ''aSurvey1'' = ''/forms/aSurvey1/data/table''"
    "replace (FORM_REPORT demoRoutes) '':uid'' ''aSurvey1'' = ''/forms/aSurvey1/data/report''"
    "replace (FORM_GALLERY demoRoutes) '':uid'' ''aSurvey1'' = ''/forms/aSurvey1/data/gallery''"
    "replace (FORM_DOWNLOADS demoRoutes) '':uid'' ''aSurvey1'' = ''/forms/aSurvey1/data/downloads''"
    "replace (FORM_MAP demoRoutes) '':uid'' ''aSurvey1'' = ''/forms/aSurvey1/data/map''"
    using substituted_path [OF subs(1) demo_splits(1)] substituted_path [OF subs(2) demo_splits(2)]
      substituted_path [OF subs(3) demo_splits(3)] substituted_path [OF subs(4) demo_splits(4)]
      substituted_path [OF subs(5) demo_splits(5)]
    by simp_all
  have "map path (getFormDataTabs (\<lambda>s. s) demoRoutes ''aSurvey1'' True) =
     [''/forms/aSurvey1/data/table'', ''/forms/aSurvey1/data/report'',
      ''/forms/aSurvey1/data/gallery'', ''/forms/aSurvey1/data/downloads'',
      ''/forms/aSurvey1/data/map'']"
    by (simp add: getFormDataTabs_def paths)
  with inst plain show ?thesis
    by simp
qed

lemma dollar_path:
  "path (hd (getFormDataTabs (\<lambda>s. s) demoRoutes ''a$&b'' True)) = ''/forms/a:uidb/data/table''"
  by code_simp

text \<open>
  The claim as first stated has the uid put into the route whatever the uid is. With the
  uid \<open>a$&b\<close> the pattern \<open>$&\<close> is replaced by the matched text, and the path of the
  Table tab is not the route with the uid in it.
\<close>

theorem dollar_pattern_counterexample:
  "hasReplacementPattern ''a$&b'' \<and>
   FORM_TABLE demoRoutes = ''/forms/'' @ '':uid'' @ ''/data/table'' \<and>
   path (hd (getFormDataTabs (\<lambda>s. s) demoRoutes ''a$&b'' True)) = ''/forms/a:uidb/data/table'' \<and>
   \<not> substituted (FORM_TABLE demoRoutes) ''a$&b''
       (path (hd (getFormDataTabs (\<lambda>s. s) demoRoutes ''a$&b'' True)))"
proof -
  have pat: "hasReplacementPattern ''a$&b''"
    by simp
  have route: "FORM_TABLE demoRoutes = ''/forms/'' @ '':uid'' @ ''/data/table''"
    by (simp add: demoRoutes_def)
  have no: "\<not> substituted (FORM_TABLE demoRoutes) ''a$&b''
       (path (hd (getFormDataTabs (\<lambda>s. s) demoRoutes ''a$&b'' True)))"
  proof
    assume "substituted (FORM_TABLE demoRoutes) ''a$&b''
       (path (hd (getFormDataTabs (\<lambda>s. s) demoRoutes ''a$&b'' True)))"
    then have "path (hd (getFormDataTabs (\<lambda>s. s) demoRoutes ''a$&b'' True)) =
        ''/forms/'' @ ''a$&b'' @ ''/data/table''"
      using demo_splits(1) by (rule substituted_path)
    then show False
      unfolding dollar_path by simp
  qed
  from pat route dollar_path no show ?thesis
    by (intro conjI)
qed

section \<open>The state of the usage dashboard\<close>

lemma Usage_run_snoc: "Usage_run (events @ [ev]) = Usage_step (Usage_run events) ev"
  by (simp add: Usage_run_def)

text \<open>
  Claim C9. The state of the usage dashboard starts with all four figures at zero. Once
  \<open>getUsage\<close> has resolved with data, the state is: storage, the total of storage bytes
  divided by 1000000; monthly submissions, the count of this month's submissions;
  transcription minutes, the ASR seconds divided by 60; translation characters, the count
  of machine-translated characters. Rendering again does not change it.
\<close>

theorem Usage_state:
  "Usage_run [] =
     \<lparr>storage = 0, monthlySubmissions = 0, transcriptionMinutes = 0, translationChars = 0\<rparr> \<and>
   Usage_run (events @ [Resolved data]) =
     \<lparr>storage = total_storage_bytes data / 1000000,
      monthlySubmissions = total_submission_count_current_month data,
      transcriptionMinutes = total_nlp_asr_seconds data / 60,
      translationChars = total_nlp_mt_characters data\<rparr> \<and>
   Usage_run (events @ [Rerendered]) = Usage_run events"
  by (simp add: Usage_run_snoc Usage_then_def) (simp add: Usage_run_def Usage_useState_def)

theorem Usage_state_witness:
  "Usage_run
     [Resolved \<lparr>total_storage_bytes = 2500000 :: real, total_submission_count_current_month = 12,
                total_nlp_asr_seconds = 90, total_nlp_mt_characters = 400\<rparr>] =
     \<lparr>storage = 5 / 2, monthlySubmissions = 12, transcriptionMinutes = 3 / 2,
      translationChars = 400\<rparr>"
proof -
  define d where "d = \<lparr>total_storage_bytes = 2500000 :: real,
    total_submission_count_current_month = 12, total_nlp_asr_seconds = 90,
    total_nlp_mt_characters = 400\<rparr>"
  from Usage_state [of "[]" d]
  have "Usage_run ([] @ [Resolved d]) =
     \<lparr>storage = total_storage_bytes d / 1000000,
      monthlySubmissions = total_submission_count_current_month d,
      transcriptionMinutes = total_nlp_asr_seconds d / 60,
      translationChars = total_nlp_mt_characters d\<rparr>"
    by (rule conjunct2 [THEN conjunct1])
  then show ?thesis
    by (simp add: d_def)
qed

section \<open>The archive and unarchive buttons\<close>

text \<open>
  Claim C10. The buttons Archive project and Unarchive project are drawn under one and
  the same condition: editing is possible (the asset has the property \<open>permissions\<close> and
  the user can \<open>change_asset\<close>), the asset is a survey, it has a deployment and the
  deployment is active. So either both are drawn or neither is, and neither is drawn for an
  asset without the property \<open>permissions\<close>.
\<close>

theorem archive_and_unarchive_together:
  "(archiveButton q a \<in> set (ProjectQuickActions q a) \<longleftrightarrow> archiveCondition q a) \<and>
   (unarchiveButton q a \<in> set (ProjectQuickActions q a) \<longleftrightarrow> archiveCondition q a) \<and>
   (asset_permissions a = None \<longrightarrow>
      archiveButton q a \<notin> set (ProjectQuickActions q a) \<and>
      unarchiveButton q a \<notin> set (ProjectQuickActions q a))"
  by (auto simp add: ProjectQuickActions_def renderIf_def bare_def archiveButton_def
      unarchiveButton_def archiveCondition_def isEditingPossible_def)


theorem archive_and_unarchive_together_witness:
  "archiveCondition demoQuickActionsEnv deployedSurvey \<and>
   archiveButton demoQuickActionsEnv deployedSurvey
     \<in> set (ProjectQuickActions demoQuickActionsEnv deployedSurvey) \<and>
   unarchiveButton demoQuickActionsEnv deployedSurvey
     \<in> set (ProjectQuickActions demoQuickActionsEnv deployedSurvey) \<and>
   asset_permissions projectViewSurvey = None \<and>
   archiveButton demoQuickActionsEnv projectViewSurvey
     \<notin> set (ProjectQuickActions demoQuickActionsEnv projectViewSurvey) \<and>
   unarchiveButton demoQuickActionsEnv projectViewSurvey
     \<notin> set (ProjectQuickActions demoQuickActionsEnv projectViewSurvey)"
proof -
  have cond: "archiveCondition demoQuickActionsEnv deployedSurvey"
    by (simp add: archiveCondition_def demoQuickActionsEnv_def deployedSurvey_def)
  have none: "asset_permissions projectViewSurvey = None"
    by (simp add: projectViewSurvey_def)
  from archive_and_unarchive_together [of demoQuickActionsEnv deployedSurvey]
    archive_and_unarchive_together [of demoQuickActionsEnv projectViewSurvey] cond none
  show ?thesis
    by blast
qed

end
